theory Spec2Isabelle
  imports Main
begin

section \<open>JavaScript strings\<close>

text \<open>
  A JavaScript string is a sequence of UTF-16 code units. The regular expressions of
  \<^verbatim>\<open>lib/agents/mentions.ts\<close> carry no \<^verbatim>\<open>u\<close> flag, so they work on code units,
  and the classes they use are written out below by code-unit value.
\<close>

type_synonym code_unit = nat
type_synonym jsstr = "code_unit list"

definition js :: "string \<Rightarrow> jsstr" where
  "js s = map of_char s"

text \<open>\<^verbatim>\<open>\s\<close> and \<^verbatim>\<open>String.prototype.trim\<close>: WhiteSpace and LineTerminator of ECMAScript.\<close>

definition isWhiteSpace :: "code_unit \<Rightarrow> bool" where
  "isWhiteSpace c \<longleftrightarrow>
     c = 9 \<or> c = 10 \<or> c = 11 \<or> c = 12 \<or> c = 13 \<or> c = 32 \<or> c = 160 \<or> c = 5760 \<or>
     (8192 \<le> c \<and> c \<le> 8202) \<or> c = 8232 \<or> c = 8233 \<or> c = 8239 \<or> c = 8287 \<or>
     c = 12288 \<or> c = 65279"

text \<open>
  \<^verbatim>\<open>[a-z0-9]\<close> under the \<^verbatim>\<open>i\<close> flag. Without the \<^verbatim>\<open>u\<close> flag a code unit from 128 on
  never canonicalizes to an ASCII one, so the class holds the ASCII letters and digits only.
\<close>

definition isAlnum :: "code_unit \<Rightarrow> bool" where
  "isAlnum c \<longleftrightarrow> (48 \<le> c \<and> c \<le> 57) \<or> (65 \<le> c \<and> c \<le> 90) \<or> (97 \<le> c \<and> c \<le> 122)"

text \<open>\<^verbatim>\<open>[\w-]\<close>: letters, digits, underscore and the hyphen.\<close>

definition isWordHyphen :: "code_unit \<Rightarrow> bool" where
  "isWordHyphen c \<longleftrightarrow> isAlnum c \<or> c = 95 \<or> c = 45"

text \<open>
  \<^verbatim>\<open>[\s:\-\<close>, en dash, em dash\<^verbatim>\<open>]\<close> of the regular-expression literal in
  \<^verbatim>\<open>extractAgentMentions\<close>.
\<close>

definition isSeparator :: "code_unit \<Rightarrow> bool" where
  "isSeparator c \<longleftrightarrow> isWhiteSpace c \<or> c = 58 \<or> c = 45 \<or> c = 8211 \<or> c = 8212"

definition trimStart :: "jsstr \<Rightarrow> jsstr" where
  "trimStart s = dropWhile isWhiteSpace s"

definition trimEnd :: "jsstr \<Rightarrow> jsstr" where
  "trimEnd s = rev (dropWhile isWhiteSpace (rev s))"

definition trim :: "jsstr \<Rightarrow> jsstr" where
  "trim s = trimEnd (trimStart s)"

text \<open>
  \<^verbatim>\<open>toLowerCase\<close>, on the ASCII letters. The code applies it to slugs only, which the
  mention grammar keeps within ASCII; the case mapping of other letters is not modelled.
\<close>

definition toLowerCase :: "jsstr \<Rightarrow> jsstr" where
  "toLowerCase s = map (\<lambda>c. if 65 \<le> c \<and> c \<le> 90 then c + 32 else c) s"

text \<open>\<^verbatim>\<open>input.slice(start, end)\<close> for indices within the string.\<close>

definition slice :: "jsstr \<Rightarrow> nat \<Rightarrow> nat \<Rightarrow> jsstr" where
  "slice s start end = take (end - start) (drop start s)"

section \<open>The mention extractor\<close>

record AgentMention =
  slug :: jsstr
  prompt :: jsstr

text \<open>
  One element of \<^verbatim>\<open>input.matchAll(mentionPattern)\<close>: \<^verbatim>\<open>match.index\<close>, \<^verbatim>\<open>match[0]\<close>
  and \<^verbatim>\<open>match[1]\<close>.
\<close>

record regexp_match =
  m_index :: nat
  m_0 :: jsstr
  m_1 :: jsstr

text \<open>
  \<^verbatim>\<open>mentionPattern = /@([a-z0-9][\w-]{0,63})/gi\<close> tried at the head of the rest of the
  input. The quantifier is greedy and nothing follows it, so it takes the longest run of
  at most 63 class members. The result is the captured group.
\<close>

definition match_mention_at :: "jsstr \<Rightarrow> jsstr option" where
  "match_mention_at s =
     (case s of
        c # d # rest \<Rightarrow>
          if c = 64 \<and> isAlnum d then Some (d # take 63 (takeWhile isWordHyphen rest))
          else None
      | _ \<Rightarrow> None)"

text \<open>
  \<^verbatim>\<open>matchAll\<close> with the global flag. The first argument is \<^verbatim>\<open>lastIndex\<close>, the second
  the input from \<^verbatim>\<open>lastIndex\<close> on: the pattern is tried at each position in turn, and
  after a match \<^verbatim>\<open>lastIndex\<close> moves to the end of that match (a match is never empty
  here).
\<close>

function matchAll_from :: "nat \<Rightarrow> jsstr \<Rightarrow> regexp_match list" where
  "matchAll_from i [] = []"
| "matchAll_from i (c # cs) =
     (case match_mention_at (c # cs) of
        None \<Rightarrow> matchAll_from (Suc i) cs
      | Some g \<Rightarrow>
          \<lparr>m_index = i, m_0 = c # g, m_1 = g\<rparr>
            # matchAll_from (i + 1 + length g) (drop (length g) cs))"
  by pat_completeness auto
termination
  by (relation "measure (\<lambda>(i, s). length s)") auto

definition matchAll :: "jsstr \<Rightarrow> regexp_match list" where
  "matchAll input = matchAll_from 0 input"

text \<open>The callback of \<^verbatim>\<open>matches.map\<close>; \<^verbatim>\<open>None\<close> is its \<^verbatim>\<open>null\<close>.\<close>

definition mention_of_match :: "jsstr \<Rightarrow> regexp_match list \<Rightarrow> nat \<Rightarrow> AgentMention option" where
  "mention_of_match input matches index =
     (let match = matches ! index;
          rawSlug = trim (m_1 match)
      in if rawSlug = [] then None
         else
           let slug = toLowerCase rawSlug;
               matchIndex = m_index match;
               promptStart = matchIndex + length (m_0 match);
               promptEnd = (if index + 1 < length matches then m_index (matches ! (index + 1))
                            else length input);
               rawPrompt = slice input promptStart promptEnd;
               prompt = trim (dropWhile isSeparator rawPrompt)
           in Some \<lparr>slug = slug, prompt = prompt\<rparr>)"

definition extractAgentMentions :: "jsstr \<Rightarrow> AgentMention list" where
  "extractAgentMentions input =
     (if input = [] then []
      else
        let matches = matchAll input
        in if length matches = 0 then []
           else List.map_filter (\<lambda>x. x)
                  (map (mention_of_match input matches) [0..<length matches]))"

section \<open>Stripping directive text\<close>

text \<open>
  The upper-case form of a code unit from 128 on, as the code units of the result of the
  Unicode default case conversion. It is the table of the Unicode version that the
  JavaScript engine ships, so it is a parameter of the functions that match under the
  \<^verbatim>\<open>i\<close> flag. The rows for ASCII are the same in every version and are written out in
  \<open>canonicalize\<close>: the letters a to z map to A to Z, every other code unit to itself.
\<close>

type_synonym case_table = "code_unit \<Rightarrow> jsstr"

text \<open>
  \<^verbatim>\<open>Canonicalize\<close> of a regular expression with the \<^verbatim>\<open>i\<close> flag and without the
  \<^verbatim>\<open>u\<close> flag: the code unit is upper-cased; it stays as it is when the upper-case form is
  not a single code unit, and when it is a code unit from 128 on whose upper-case form is
  an ASCII one.
\<close>

definition canonicalize :: "case_table \<Rightarrow> code_unit \<Rightarrow> code_unit" where
  "canonicalize toUppercase ch =
     (let u = (if ch < 128 then [if 97 \<le> ch \<and> ch \<le> 122 then ch - 32 else ch]
               else toUppercase ch)
      in case u of
           [cu] \<Rightarrow> if 128 \<le> ch \<and> cu < 128 then ch else cu
         | _ \<Rightarrow> ch)"

text \<open>
  A literal piece of a pattern, matched at the head of \<open>s\<close> under the \<^verbatim>\<open>i\<close> flag: code
  unit by code unit, the canonical forms are the same.
\<close>

definition matches_ci :: "case_table \<Rightarrow> jsstr \<Rightarrow> jsstr \<Rightarrow> bool" where
  "matches_ci toUppercase lit s \<longleftrightarrow>
     length lit \<le> length s
     \<and> map (canonicalize toUppercase) (take (length lit) s) = map (canonicalize toUppercase) lit"

text \<open>
  The pattern of \<^verbatim>\<open>stripAgentDirectiveText\<close> is built by \<^verbatim>\<open>new RegExp\<close> from a template
  literal, and a template literal cooks its escapes: \<^verbatim>\<open>\s\<close> becomes the letter \<^verbatim>\<open>s\<close> and
  \<^verbatim>\<open>\-\<close> becomes \<^verbatim>\<open>-\<close>. The class that reaches the regular-expression compiler is
  therefore \<^verbatim>\<open>[s:-\<close>en dash, em dash\<^verbatim>\<open>]\<close>: the letter s (115), the range from the colon (58)
  to the en dash (8211), and the em dash (8212). Under the \<^verbatim>\<open>i\<close> flag a code unit is in
  the class when its canonical form is the canonical form of a member.
\<close>

definition directiveClass :: "code_unit set" where
  "directiveClass = {115} \<union> {58..8211} \<union> {8212}"

definition inDirectiveClass :: "case_table \<Rightarrow> code_unit \<Rightarrow> bool" where
  "inDirectiveClass toUppercase c \<longleftrightarrow>
     canonicalize toUppercase c \<in> canonicalize toUppercase ` directiveClass"

text \<open>
  The directive pattern tried at the head of \<open>s\<close>: \<^verbatim>\<open>@\<close>, the escaped slug, one or more
  class members (greedy, giving back one at a time), the escaped prompt. \<^verbatim>\<open>escapeRegExp\<close>
  makes every code unit of the slug and of the prompt a literal of the pattern. The result
  is the length of the match.
\<close>

definition match_directive_at :: "case_table \<Rightarrow> AgentMention \<Rightarrow> jsstr \<Rightarrow> nat option" where
  "match_directive_at toUppercase mention s =
     (let token = 64 # slug mention
      in if \<not> matches_ci toUppercase token s then None
         else
           let rest = drop (length token) s;
               run = length (takeWhile (inDirectiveClass toUppercase) rest)
           in case find (\<lambda>n. matches_ci toUppercase (prompt mention) (drop n rest))
                     (rev [1..<Suc run]) of
                None \<Rightarrow> None
              | Some n \<Rightarrow> Some (length token + n + length (prompt mention)))"

text \<open>
  The leftmost match of the directive pattern; \<open>i\<close> is the position of the head of the
  second argument in the whole string. The lookahead \<^verbatim>\<open>(?!^)\<close> rejects position 0.
\<close>

fun search_directive ::
  "case_table \<Rightarrow> AgentMention \<Rightarrow> nat \<Rightarrow> jsstr \<Rightarrow> (nat \<times> nat) option" where
  "search_directive toUppercase mention i [] = None"
| "search_directive toUppercase mention i (c # cs) =
     (case (if i = 0 then None else match_directive_at toUppercase mention (c # cs)) of
        Some n \<Rightarrow> Some (i, n)
      | None \<Rightarrow> search_directive toUppercase mention (Suc i) cs)"

text \<open>
  \<^verbatim>\<open>GetSubstitution\<close> for a pattern without capture groups: \<^verbatim>\<open>$$\<close>, \<^verbatim>\<open>$&\<close>,
  \<^verbatim>\<open>$`\<close> and \<^verbatim>\<open>$'\<close> are expanded, everything else stands for itself.
\<close>

fun getSubstitution :: "jsstr \<Rightarrow> jsstr \<Rightarrow> jsstr \<Rightarrow> jsstr \<Rightarrow> jsstr" where
  "getSubstitution matched pre post (c # d # r) =
     (if c = 36 \<and> d = 36 then 36 # getSubstitution matched pre post r
      else if c = 36 \<and> d = 38 then matched @ getSubstitution matched pre post r
      else if c = 36 \<and> d = 96 then pre @ getSubstitution matched pre post r
      else if c = 36 \<and> d = 39 then post @ getSubstitution matched pre post r
      else c # getSubstitution matched pre post (d # r))"
| "getSubstitution matched pre post r = r"

text \<open>The callback of \<^verbatim>\<open>mentions.forEach\<close>, as a function of \<^verbatim>\<open>output\<close>.\<close>

definition replace_directive :: "case_table \<Rightarrow> jsstr \<Rightarrow> AgentMention \<Rightarrow> jsstr" where
  "replace_directive toUppercase output mention =
     (if prompt mention = [] then output
      else case search_directive toUppercase mention 0 output of
             None \<Rightarrow> output
           | Some (p, n) \<Rightarrow>
               take p output
                 @ getSubstitution (slice output p (p + n)) (take p output) (drop (p + n) output)
                     (64 # slug mention)
                 @ drop (p + n) output)"

definition stripAgentDirectiveText :: "case_table \<Rightarrow> jsstr \<Rightarrow> AgentMention list \<Rightarrow> jsstr" where
  "stripAgentDirectiveText toUppercase input mentions =
     (if length mentions = 0 then input
      else trim (foldl (replace_directive toUppercase) input mentions))"

section \<open>Parsing a response heading\<close>

definition isLineTerminator :: "code_unit \<Rightarrow> bool" where
  "isLineTerminator c \<longleftrightarrow> c = 10 \<or> c = 13 \<or> c = 8232 \<or> c = 8233"

text \<open>
  The optional group \<^verbatim>\<open>(?: \((.+?)\))?\<close> tried at the head of \<open>s\<close>: a space, an opening
  parenthesis, at least one code unit that is no line terminator, then lazily up to the
  first closing parenthesis. The result is the captured name.
\<close>

definition match_name_group :: "jsstr \<Rightarrow> jsstr option" where
  "match_name_group s =
     (case s of
        sp # lp # c # r \<Rightarrow>
          if sp = 32 \<and> lp = 40 \<and> \<not> isLineTerminator c then
            let more = takeWhile (\<lambda>x. x \<noteq> 41 \<and> \<not> isLineTerminator x) r
            in if take 1 (drop (length more) r) = [41] then Some (c # more) else None
          else None
      | _ \<Rightarrow> None)"

text \<open>
  \<^verbatim>\<open>agentResponseHeadingPattern = /^###\s+Response from @([a-z0-9][\w-]*)(?: \((.+?)\))?/i\<close>
  matched against a string: the length of \<^verbatim>\<open>match[0]\<close>, group 1 and group 2.
\<close>

definition match_heading ::
  "case_table \<Rightarrow> jsstr \<Rightarrow> (nat \<times> jsstr \<times> jsstr option) option" where
  "match_heading toUppercase s =
     (if take 3 s \<noteq> js ''###'' then None
      else
        let s1 = drop 3 s;
            ws = takeWhile isWhiteSpace s1;
            s2 = drop (length ws) s1;
            lit = js ''Response from @''
        in if ws = [] \<or> \<not> matches_ci toUppercase lit s2 then None
           else case drop (length lit) s2 of
                  [] \<Rightarrow> None
                | d # rest \<Rightarrow>
                    if \<not> isAlnum d then None
                    else
                      let more = takeWhile isWordHyphen rest;
                          slugRaw = d # more;
                          n = 3 + length ws + length lit + length slugRaw
                      in case match_name_group (drop (length more) rest) of
                           None \<Rightarrow> Some (n, slugRaw, None)
                         | Some name \<Rightarrow> Some (n + 2 + length name + 1, slugRaw, Some name))"

record AgentResponseText =
  parsed_slug :: jsstr
  parsed_agentName :: "jsstr option"
  parsed_body :: jsstr

definition parseAgentResponseText :: "case_table \<Rightarrow> jsstr \<Rightarrow> AgentResponseText option" where
  "parseAgentResponseText toUppercase text =
     (if text = [] then None
      else
        let trimmed = trimStart text
        in case match_heading toUppercase trimmed of
             None \<Rightarrow> None
           | Some (n, slugRaw, name) \<Rightarrow>
               Some \<lparr>parsed_slug = toLowerCase slugRaw,
                     parsed_agentName = name,
                     parsed_body = trimStart (drop n trimmed)\<rparr>)"

section \<open>Collaborators, tools and effects\<close>

text \<open>A thrown value.\<close>

datatype exn = Exn jsstr

text \<open>The fields of an agent record that \<^verbatim>\<open>handleAgentMentions\<close> reads.\<close>

record Agent =
  name :: jsstr
  agentPrompt :: "jsstr option"
  modelId :: "jsstr option"
  vectorStoreId :: "jsstr option"
  isPublic :: bool
  userId :: jsstr

record VectorStoreFile =
  vectorStoreFileId :: jsstr
  fileName :: jsstr
  fileSizeBytes :: "nat option"

record KnowledgeFile =
  kf_id :: jsstr
  kf_name :: jsstr
  kf_sizeBytes :: "nat option"

record RequestHints =
  hint_longitude :: "jsstr option"
  hint_latitude :: "jsstr option"
  hint_city :: "jsstr option"
  hint_country :: "jsstr option"
  hint_email :: "jsstr option"
  hint_name :: "jsstr option"
  hint_date :: "nat option"

record AgentContext =
  ac_agentPrompt :: jsstr
  ac_agentName :: jsstr
  ac_knowledgeFiles :: "KnowledgeFile list"

datatype effort = Low | Medium | High

text \<open>
  An entry of \<^verbatim>\<open>providerOptions\<close>: the \<^verbatim>\<open>openai\<close> entry carries the reasoning effort (its
  \<^verbatim>\<open>reasoningSummary\<close> and \<^verbatim>\<open>include\<close> are constants), the \<^verbatim>\<open>xai\<close> entry carries
  \<^verbatim>\<open>maxSearchResults\<close>.
\<close>

datatype provider_option = OpenAIOptions effort | XaiOptions nat

text \<open>
  A tool of the registry: one bound to the session and the data stream, the provider's
  file search over vector stores, or \<^verbatim>\<open>getFileContents\<close> bound to a user and a vector
  store id.
\<close>

datatype tool = SessionTool | FileSearch "jsstr list" | GetFileContents jsstr jsstr

text \<open>What \<^verbatim>\<open>createToolRegistry\<close> returns. \<^verbatim>\<open>tools\<close> keeps the insertion order of its keys.\<close>

record tool_registry =
  tools :: "(jsstr \<times> tool) list"
  nonConfigurableToolIds :: "jsstr set"
  fileSearchRegistered :: bool

text \<open>Truthiness of an optional string: defined and not empty.\<close>

definition truthy :: "jsstr option \<Rightarrow> bool" where
  "truthy v \<longleftrightarrow> (case v of None \<Rightarrow> False | Some s \<Rightarrow> s \<noteq> [])"

definition createToolRegistry :: "jsstr \<Rightarrow> jsstr option \<Rightarrow> jsstr \<Rightarrow> bool \<Rightarrow> tool_registry" where
  "createToolRegistry userId' vectorStoreId' providerNamespace includeTranscriptDetails =
     (let tools0 = map (\<lambda>n. (js n, SessionTool))
            [''requestSuggestions'', ''searchTranscriptsByKeyword'', ''searchTranscriptsByUser'',
             ''listAccessibleSlackChannels'', ''fetchSlackChannelHistory'',
             ''getSlackThreadReplies'', ''getBulkSlackHistory'', ''listGoogleCalendarEvents'',
             ''listGmailMessages'', ''getGmailMessageDetails''];
          registered = (providerNamespace = js ''openai'' \<and> truthy vectorStoreId');
          tools1 = (if registered
                    then tools0 @ [(js ''file_search'', FileSearch [the vectorStoreId'])]
                    else tools0);
          tools2 = tools1 @ [(js ''get_file_contents'',
                     GetFileContents userId' (case vectorStoreId' of None \<Rightarrow> [] | Some v \<Rightarrow> v))];
          pinned = (if truthy vectorStoreId'
                    then (if registered then {js ''get_file_contents'', js ''file_search''}
                          else {js ''get_file_contents''})
                    else {});
          tools3 = (if includeTranscriptDetails
                    then tools2 @ [(js ''getTranscriptDetails'', SessionTool)]
                    else tools2)
      in \<lparr>tools = tools3, nonConfigurableToolIds = pinned, fileSearchRegistered = registered\<rparr>)"

text \<open>
  \<^verbatim>\<open>activeToolsForRun\<close> of the primary turn: the available tools that the request names
  or that are pinned; without an allow-list every available tool is requested.
\<close>

definition activeToolsForRun :: "tool_registry \<Rightarrow> jsstr list option \<Rightarrow> jsstr list" where
  "activeToolsForRun registry requestedActiveTools =
     (let availableToolIds = map fst (tools registry);
          requestedToolSet = set (case requestedActiveTools of
                                    Some r \<Rightarrow> r
                                  | None \<Rightarrow> availableToolIds)
      in filter (\<lambda>toolId. toolId \<in> requestedToolSet \<or> toolId \<in> nonConfigurableToolIds registry)
           availableToolIds)"

text \<open>
  \<^verbatim>\<open>activeToolsForAgent\<close> of a mention run: an absent or empty allow-list requests every
  available tool, and an empty result falls back to every available tool.
\<close>

definition activeToolsForAgent :: "tool_registry \<Rightarrow> jsstr list option \<Rightarrow> jsstr list" where
  "activeToolsForAgent registry requestedActiveTools =
     (let availableToolIds = map fst (tools registry);
          requestedToolSet = set (case requestedActiveTools of
                                    Some r \<Rightarrow> if length r > 0 then r else availableToolIds
                                  | None \<Rightarrow> availableToolIds);
          active = filter (\<lambda>toolId. toolId \<in> requestedToolSet
                                     \<or> toolId \<in> nonConfigurableToolIds registry)
                     availableToolIds
      in if length active = 0 then availableToolIds else active)"

datatype role = User | Assistant

datatype part = TextPart jsstr | FilePart jsstr jsstr jsstr

record ChatMessage =
  msg_id :: jsstr
  msg_role :: role
  msg_parts :: "part list"
  msg_createdAt :: "nat option"

record DBMessage =
  db_id :: jsstr
  db_chatId :: jsstr
  db_role :: role
  db_parts :: "part list"
  db_attachments :: "jsstr list"
  db_createdAt :: nat

text \<open>The argument of \<^verbatim>\<open>generateText\<close>.\<close>

record generate_request =
  g_model :: jsstr
  g_system :: jsstr
  g_prompt :: jsstr
  g_tools :: "(jsstr \<times> tool) list"
  g_activeTools :: "jsstr list"
  g_stepLimit :: nat
  g_providerOptions :: "provider_option list option"

text \<open>The argument of \<^verbatim>\<open>streamText\<close> in the primary turn.\<close>

record stream_request =
  st_model :: jsstr
  st_system :: jsstr
  st_messages :: "ChatMessage list"
  st_stepLimit :: nat
  st_activeTools :: "jsstr list"
  st_tools :: "(jsstr \<times> tool) list"
  st_providerOptions :: "provider_option list option"

datatype status = Started | Finished | Error

text \<open>
  What a run does to the outside, in order: the chunks it writes to the stream writer
  (\<^verbatim>\<open>data-agent-status\<close> with slug, status, message id and agent name;
  \<^verbatim>\<open>data-appendMessage\<close> with the message) and its calls of the collaborators that
  write, list knowledge files or invoke a model.
\<close>

datatype effect =
    WriteAgentStatus jsstr status "jsstr option" "jsstr option"
  | WriteAppendMessage ChatMessage
  | CallGetAgentBySlug jsstr
  | CallGetVectorStoreFilesByUser jsstr jsstr
  | CallGenerateText generate_request
  | CallSaveMessages "DBMessage list"
  | CallSaveChat jsstr jsstr jsstr
  | CallCreateStreamId jsstr jsstr
  | CallStreamText stream_request
  | CallUpdateChatLastContextById jsstr jsstr
  | ConsoleWarn jsstr exn
  | ConsoleError jsstr jsstr exn

text \<open>
  The collaborators of \<^verbatim>\<open>handleAgentMentions\<close>, over a state \<open>'w\<close> of the outside world
  that each call may read and change. A call that can reject returns \<open>Inl\<close> of the
  thrown value. \<^verbatim>\<open>getChatModelById\<close> (here: the id of the model found),
  \<^verbatim>\<open>resolveProviderModelId\<close> and \<^verbatim>\<open>systemPrompt\<close> are pure and are taken as given.
\<close>

record 'w collaborators =
  getAgentBySlug :: "jsstr \<Rightarrow> 'w \<Rightarrow> (exn + Agent option) \<times> 'w"
  getVectorStoreFilesByUser :: "jsstr \<Rightarrow> jsstr \<Rightarrow> 'w \<Rightarrow> (exn + VectorStoreFile list) \<times> 'w"
  generateText :: "generate_request \<Rightarrow> 'w \<Rightarrow> (exn + jsstr) \<times> 'w"
  saveMessages :: "DBMessage list \<Rightarrow> 'w \<Rightarrow> (exn + unit) \<times> 'w"
  generateUUID :: "'w \<Rightarrow> jsstr \<times> 'w"
  newDate :: "'w \<Rightarrow> nat \<times> 'w"
  getChatModelById :: "jsstr \<Rightarrow> jsstr option"
  resolveProviderModelId :: "jsstr \<Rightarrow> jsstr"
  systemPrompt :: "jsstr \<Rightarrow> RequestHints \<Rightarrow> AgentContext option \<Rightarrow> jsstr"

section \<open>The mention orchestrator\<close>

text \<open>The parameters of \<^verbatim>\<open>handleAgentMentions\<close> besides the mentions and the writer.\<close>

record mention_context =
  ctx_chatId :: jsstr
  ctx_userId :: jsstr
  ctx_defaultModelId :: jsstr
  ctx_userMessage :: jsstr
  ctx_requestHints :: RequestHints
  ctx_isMemberRole :: bool
  ctx_requestedActiveTools :: "jsstr list option"
  ctx_reasoningEffort :: effort

text \<open>\<^verbatim>\<open>segments.join(sep)\<close>.\<close>

fun join :: "jsstr \<Rightarrow> jsstr list \<Rightarrow> jsstr" where
  "join sep [] = []"
| "join sep [x] = x"
| "join sep (x # y # ys) = x @ sep @ join sep (y # ys)"

definition buildAgentInstruction :: "jsstr \<Rightarrow> jsstr \<Rightarrow> jsstr \<Rightarrow> jsstr" where
  "buildAgentInstruction userMessage mentionPrompt slug' =
     (let trimmedPrompt = trim mentionPrompt;
          segments0 = (if length (trim userMessage) > 0
                       then [js ''Full user message:'' @ [10] @ trim userMessage]
                       else []);
          segments = segments0 @
            [if length trimmedPrompt > 0
             then js ''Focus on the instruction provided after @'' @ slug' @ js '':'' @ [10]
                    @ trimmedPrompt
             else js ''The user referenced @'' @ slug'
                    @ js '' without additional instructions. Provide a concise, helpful response based on the overall conversation context.'']
      in join [10, 10] segments)"

definition providerOptionsFor :: "jsstr \<Rightarrow> effort \<Rightarrow> provider_option list option" where
  "providerOptionsFor providerNamespace reasoningEffort =
     (let providerOptions =
            (if providerNamespace = js ''openai'' then [OpenAIOptions reasoningEffort] else [])
            @ (if providerNamespace = js ''xai'' then [XaiOptions 12] else [])
      in if length providerOptions > 0 then Some providerOptions else None)"

text \<open>
  The branch of the \<^verbatim>\<open>try\<close> block for an agent the requester may use: from the model
  resolution to the call of \<^verbatim>\<open>generateText\<close>. A rejected knowledge-file listing is caught
  by the inner handler, which warns and goes on without files. The result is the thrown
  value or the response body, with the effects in order.
\<close>

definition agent_run ::
  "'w collaborators \<Rightarrow> mention_context \<Rightarrow> jsstr \<Rightarrow> jsstr \<Rightarrow> Agent \<Rightarrow> 'w
     \<Rightarrow> ((exn + jsstr) \<times> effect list) \<times> 'w" where
  "agent_run env ctx slug' mentionPrompt agentRecord w =
     (let resolvedModelId =
            (case getChatModelById env (case modelId agentRecord of None \<Rightarrow> [] | Some m \<Rightarrow> m) of
               Some i \<Rightarrow> i
             | None \<Rightarrow> ctx_defaultModelId ctx);
          providerModelId = resolveProviderModelId env resolvedModelId;
          providerNamespace = takeWhile (\<lambda>c. c \<noteq> 47) providerModelId;
          agentVectorStoreId =
            (if truthy (vectorStoreId agentRecord) \<and> userId agentRecord = ctx_userId ctx
             then vectorStoreId agentRecord else None);
          listing =
            (case agentVectorStoreId of
               None \<Rightarrow> (([], []), w)
             | Some v \<Rightarrow>
                 (case getVectorStoreFilesByUser env (ctx_userId ctx) v w of
                    (Inr files, w') \<Rightarrow>
                      ((map (\<lambda>file. \<lparr>kf_id = vectorStoreFileId file, kf_name = fileName file,
                                       kf_sizeBytes = fileSizeBytes file\<rparr>) files,
                        [CallGetVectorStoreFilesByUser (ctx_userId ctx) v]), w')
                  | (Inl error, w') \<Rightarrow>
                      (([], [CallGetVectorStoreFilesByUser (ctx_userId ctx) v,
                             ConsoleWarn slug' error]), w')));
          knowledgeFiles = fst (fst listing);
          agentSystemPrompt =
            systemPrompt env resolvedModelId (ctx_requestHints ctx)
              (Some \<lparr>ac_agentPrompt = (case agentPrompt agentRecord of None \<Rightarrow> [] | Some p \<Rightarrow> p),
                     ac_agentName = name agentRecord,
                     ac_knowledgeFiles = knowledgeFiles\<rparr>);
          registry = createToolRegistry (ctx_userId ctx) agentVectorStoreId providerNamespace
                       (\<not> ctx_isMemberRole ctx);
          request =
            \<lparr>g_model = resolvedModelId,
             g_system = agentSystemPrompt,
             g_prompt = buildAgentInstruction (ctx_userMessage ctx) mentionPrompt slug',
             g_tools = tools registry,
             g_activeTools = activeToolsForAgent registry (ctx_requestedActiveTools ctx),
             g_stepLimit = 20,
             g_providerOptions = providerOptionsFor providerNamespace (ctx_reasoningEffort ctx)\<rparr>;
          log = snd (fst listing) @ [CallGenerateText request]
      in case generateText env request (snd listing) of
           (Inl error, w') \<Rightarrow> ((Inl error, log), w')
         | (Inr text, w') \<Rightarrow>
             ((Inr (if length (trim text) > 0 then trim text else js ''No response generated.''),
               log), w'))"

text \<open>
  The \<^verbatim>\<open>try\<close> block of one iteration. Its result holds the variables the block assigns,
  \<^verbatim>\<open>responseHeader\<close> and \<^verbatim>\<open>agentName\<close> (they keep their values when a later call
  throws), then the thrown value or \<^verbatim>\<open>responseBody\<close>, then the effects.
\<close>

definition try_mention ::
  "'w collaborators \<Rightarrow> mention_context \<Rightarrow> jsstr \<Rightarrow> jsstr \<Rightarrow> 'w
     \<Rightarrow> (jsstr \<times> jsstr option \<times> (exn + jsstr) \<times> effect list) \<times> 'w" where
  "try_mention env ctx slug' mentionPrompt w =
     (case getAgentBySlug env slug' w of
        (Inl error, w') \<Rightarrow> ((64 # slug', None, Inl error, [CallGetAgentBySlug slug']), w')
      | (Inr None, w') \<Rightarrow>
          ((64 # slug', None,
            Inr (js ''No agent named @'' @ slug' @ js '' is available.''),
            [CallGetAgentBySlug slug']), w')
      | (Inr (Some agentRecord), w') \<Rightarrow>
          if \<not> isPublic agentRecord \<and> userId agentRecord \<noteq> ctx_userId ctx then
            ((64 # slug', None,
              Inr (js ''You do not have access to @'' @ slug'
                     @ js ''. Ask the owner to make it public or share it with you.''),
              [CallGetAgentBySlug slug']), w')
          else
            (case agent_run env ctx slug' mentionPrompt agentRecord w' of
               ((outcome, log), w'') \<Rightarrow>
                 ((64 # slug' @ (if name agentRecord \<noteq> []
                                then js '' ('' @ name agentRecord @ js '')'' else []),
                   Some (name agentRecord), outcome, CallGetAgentBySlug slug' # log), w'')))"

text \<open>
  One iteration of the loop over the mentions: the message for the transcript, the row for
  the database and the effects of the iteration in order.
\<close>

definition mention_iteration ::
  "'w collaborators \<Rightarrow> mention_context \<Rightarrow> AgentMention \<Rightarrow> 'w
     \<Rightarrow> (ChatMessage \<times> DBMessage \<times> effect list) \<times> 'w" where
  "mention_iteration env ctx mention w =
     (let slug' = slug mention;
          mentionPrompt = trim (prompt mention)
      in case newDate env w of
           (now, w1) \<Rightarrow>
             (case generateUUID env w1 of
                (uiMessageId, w2) \<Rightarrow>
                  (case try_mention env ctx slug' mentionPrompt w2 of
                     ((responseHeader, agentName, outcome, log), w3) \<Rightarrow>
                       let responseBody =
                             (case outcome of
                                Inr b \<Rightarrow> b
                              | Inl error \<Rightarrow>
                                  js ''Encountered an error while running @'' @ slug' @ js ''.'');
                           status = (case outcome of Inr b \<Rightarrow> Finished | Inl error \<Rightarrow> Error);
                           caught =
                             (case outcome of
                                Inr b \<Rightarrow> []
                              | Inl error \<Rightarrow> [ConsoleError (ctx_chatId ctx) slug' error]);
                           textContent =
                             js ''### Response from '' @ responseHeader @ [10, 10] @ responseBody;
                           uiMessage =
                             \<lparr>msg_id = uiMessageId, msg_role = Assistant,
                              msg_parts = [TextPart textContent], msg_createdAt = Some now\<rparr>;
                           dbMessage =
                             \<lparr>db_id = uiMessageId, db_chatId = ctx_chatId ctx,
                              db_role = Assistant, db_parts = msg_parts uiMessage,
                              db_attachments = [], db_createdAt = now\<rparr>
                       in ((uiMessage, dbMessage,
                            [WriteAgentStatus slug' Started None None] @ log @ caught
                              @ [WriteAppendMessage uiMessage,
                                 WriteAgentStatus slug' status (Some uiMessageId) agentName]),
                           w3))))"

text \<open>
  The \<^verbatim>\<open>for\<close> loop: \<^verbatim>\<open>agentMessages\<close>, \<^verbatim>\<open>dbMessages\<close> and the effects of the mentions
  from the current one on.
\<close>

fun mention_loop ::
  "'w collaborators \<Rightarrow> mention_context \<Rightarrow> AgentMention list \<Rightarrow> 'w
     \<Rightarrow> (ChatMessage list \<times> DBMessage list \<times> effect list) \<times> 'w" where
  "mention_loop env ctx [] w = (([], [], []), w)"
| "mention_loop env ctx (mention # rest) w =
     (case mention_iteration env ctx mention w of
        ((uiMessage, dbMessage, log), w1) \<Rightarrow>
          (case mention_loop env ctx rest w1 of
             ((agentMessages, dbMessages, logs), w2) \<Rightarrow>
               ((uiMessage # agentMessages, dbMessage # dbMessages, log @ logs), w2)))"

text \<open>
  \<^verbatim>\<open>handleAgentMentions\<close>: the returned messages, or the value thrown by the batched
  \<^verbatim>\<open>saveMessages\<close>, which no handler catches; with the effects in order.
\<close>

definition handleAgentMentions ::
  "'w collaborators \<Rightarrow> mention_context \<Rightarrow> AgentMention list \<Rightarrow> 'w
     \<Rightarrow> ((exn + ChatMessage list) \<times> effect list) \<times> 'w" where
  "handleAgentMentions env ctx mentions w =
     (if length mentions = 0 then ((Inr [], []), w)
      else case mention_loop env ctx mentions w of
             ((agentMessages, dbMessages, log), w1) \<Rightarrow>
               if length dbMessages > 0 then
                 (case saveMessages env dbMessages w1 of
                    (Inl error, w2) \<Rightarrow> ((Inl error, log @ [CallSaveMessages dbMessages]), w2)
                  | (Inr u, w2) \<Rightarrow> ((Inr agentMessages, log @ [CallSaveMessages dbMessages]), w2))
               else ((Inr agentMessages, log), w1))"

section \<open>The chat request handler\<close>

record PreviewAgentContext =
  pv_agentName :: jsstr
  pv_agentDescription :: "jsstr option"
  pv_agentPrompt :: "jsstr option"

text \<open>
  The request body after \<^verbatim>\<open>postRequestBodySchema.parse\<close>. The schema gives every mention
  a prompt (default empty) and a slug of the mention grammar.
\<close>

record PostRequestBody =
  pb_id :: jsstr
  pb_message :: ChatMessage
  pb_reasoningEffort :: effort
  pb_selectedChatModel :: "jsstr option"
  pb_agentSlug :: "jsstr option"
  pb_agentContext :: "PreviewAgentContext option"
  pb_activeTools :: "jsstr list option"
  pb_agentVectorStoreId :: "jsstr option"
  pb_agentMentions :: "AgentMention list option"
  pb_rawInput :: "jsstr option"


record SessionUser =
  su_id :: jsstr
  su_email :: jsstr
  su_firstName :: "jsstr option"
  su_lastName :: "jsstr option"

record Session =
  ss_user :: "SessionUser option"
  ss_role :: jsstr

datatype response = ErrorResponse jsstr | StreamResponse

text \<open>
  The further collaborators of \<^verbatim>\<open>POST\<close>. \<^verbatim>\<open>getDatabaseUserFromWorkOS\<close> and
  \<^verbatim>\<open>getChatById\<close> give the id of the database user and of the chat's owner;
  \<^verbatim>\<open>getMessagesByChatId\<close> gives the stored messages already converted to UI messages.
  \<^verbatim>\<open>streamText\<close> gives the usage its \<^verbatim>\<open>onFinish\<close> callback reports, if it is called.
  \<^verbatim>\<open>uiStreamFinish\<close> stands for the stream library: the messages it hands to the
  \<^verbatim>\<open>onFinish\<close> callback of \<^verbatim>\<open>createUIMessageStream\<close> once the stream has finished, or
  \<^verbatim>\<open>None\<close> when it never calls it. Of these calls only \<^verbatim>\<open>saveMessages\<close> and
  \<^verbatim>\<open>getVectorStoreFilesByUser\<close> are modelled as able to reject; the others are taken to
  return.
\<close>

record 'w post_collaborators =
  core :: "'w collaborators"
  withAuth :: "'w \<Rightarrow> Session option \<times> 'w"
  getDatabaseUserFromWorkOS :: "SessionUser \<Rightarrow> 'w \<Rightarrow> jsstr option \<times> 'w"
  getAgentWithUserState :: "jsstr \<Rightarrow> jsstr \<Rightarrow> 'w \<Rightarrow> Agent option \<times> 'w"
  getChatById :: "jsstr \<Rightarrow> 'w \<Rightarrow> jsstr option \<times> 'w"
  generateTitleFromUserMessage :: "ChatMessage \<Rightarrow> 'w \<Rightarrow> jsstr \<times> 'w"
  saveChat :: "jsstr \<Rightarrow> jsstr \<Rightarrow> jsstr \<Rightarrow> 'w \<Rightarrow> 'w"
  getMessagesByChatId :: "jsstr \<Rightarrow> 'w \<Rightarrow> ChatMessage list \<times> 'w"
  createStreamId :: "jsstr \<Rightarrow> jsstr \<Rightarrow> 'w \<Rightarrow> 'w"
  getTextFromMessage :: "ChatMessage \<Rightarrow> jsstr"
  streamText :: "stream_request \<Rightarrow> 'w \<Rightarrow> jsstr option \<times> 'w"
  uiStreamFinish :: "'w \<Rightarrow> ChatMessage list option \<times> 'w"
  updateChatLastContextById :: "jsstr \<Rightarrow> jsstr \<Rightarrow> 'w \<Rightarrow> 'w"




definition promptAgentContext ::
  "jsstr option \<Rightarrow> Agent option \<Rightarrow> PreviewAgentContext option \<Rightarrow> KnowledgeFile list
     \<Rightarrow> AgentContext option" where
  "promptAgentContext agentSlug agentContext previewAgentContext knowledgeFileSummaries =
     (if truthy agentSlug then
        (case agentContext of
           Some agent \<Rightarrow>
             Some \<lparr>ac_agentPrompt = (case agentPrompt agent of None \<Rightarrow> [] | Some p \<Rightarrow> p),
                   ac_agentName = name agent,
                   ac_knowledgeFiles = knowledgeFileSummaries\<rparr>
         | None \<Rightarrow>
             if length knowledgeFileSummaries > 0 then
               Some \<lparr>ac_agentPrompt =
                       js ''Leverage the knowledge base files listed below to assist the user.'',
                     ac_agentName = js ''Agent'',
                     ac_knowledgeFiles = knowledgeFileSummaries\<rparr>
             else None)
      else
        (case previewAgentContext of
           Some pv \<Rightarrow>
             Some \<lparr>ac_agentPrompt = (case pv_agentPrompt pv of None \<Rightarrow> [] | Some p \<Rightarrow> p),
                   ac_agentName = (if pv_agentName pv \<noteq> [] then pv_agentName pv
                                   else js ''Preview Agent''),
                   ac_knowledgeFiles = knowledgeFileSummaries\<rparr>
         | None \<Rightarrow>
             if length knowledgeFileSummaries > 0 then
               Some \<lparr>ac_agentPrompt =
                       js ''Leverage the knowledge base files listed below to assist the user.'',
                     ac_agentName = js ''Preview Agent'',
                     ac_knowledgeFiles = knowledgeFileSummaries\<rparr>
             else None))"

text \<open>What \<^verbatim>\<open>POST\<close> has settled when it builds the stream.\<close>

record turn =
  t_body :: PostRequestBody
  t_session :: Session
  t_user :: SessionUser
  t_databaseUserId :: jsstr
  t_agentContext :: "Agent option"
  t_mentions :: "AgentMention list"
  t_uiMessages :: "ChatMessage list"
  t_userInput :: jsstr
  t_requestHints :: RequestHints
  t_resolvedVectorStoreId :: "jsstr option"
  t_knowledgeFileSummaries :: "KnowledgeFile list"
  t_selectedChatModelId :: jsstr
  t_providerNamespace :: jsstr

text \<open>
  The \<^verbatim>\<open>execute\<close> callback of the stream: the tool registry, the mention runs when there
  are mentions, then the primary run. When \<^verbatim>\<open>handleAgentMentions\<close> rejects, the callback
  rejects with it and the primary run does not start. \<^verbatim>\<open>validateUIMessages\<close> and
  \<^verbatim>\<open>convertToModelMessages\<close> are taken to hand the messages through. The result is the
  usage of the primary run, if reported, with the effects in order.
\<close>

definition execute ::
  "'w post_collaborators \<Rightarrow> turn \<Rightarrow> 'w \<Rightarrow> ((exn + jsstr option) \<times> effect list) \<times> 'w" where
  "execute env t w =
     (let isMemberRole = (ss_role (t_session t) = js ''member'');
          includeTranscriptDetails = (\<not> isMemberRole);
          registry = createToolRegistry (t_databaseUserId t) (t_resolvedVectorStoreId t)
                       (t_providerNamespace t) includeTranscriptDetails;
          requestedActiveTools = pb_activeTools (t_body t);
          mentioned =
            (if length (t_mentions t) > 0 then
               handleAgentMentions (core env)
                 \<lparr>ctx_chatId = pb_id (t_body t),
                  ctx_userId = t_databaseUserId t,
                  ctx_defaultModelId = t_selectedChatModelId t,
                  ctx_userMessage = t_userInput t,
                  ctx_requestHints = t_requestHints t,
                  ctx_isMemberRole = isMemberRole,
                  ctx_requestedActiveTools = requestedActiveTools,
                  ctx_reasoningEffort = pb_reasoningEffort (t_body t)\<rparr>
                 (t_mentions t) w
             else ((Inr [], []), w))
      in case mentioned of
           ((Inl error, log), w1) \<Rightarrow> ((Inl error, log), w1)
         | ((Inr agentMessages, log), w1) \<Rightarrow>
             let uiMessages = t_uiMessages t @ agentMessages;
                 request =
                   \<lparr>st_model = t_selectedChatModelId t,
                    st_system =
                      systemPrompt (core env) (t_selectedChatModelId t) (t_requestHints t)
                        (promptAgentContext (pb_agentSlug (t_body t)) (t_agentContext t)
                           (pb_agentContext (t_body t)) (t_knowledgeFileSummaries t)),
                    st_messages = uiMessages,
                    st_stepLimit = 50,
                    st_activeTools = activeToolsForRun registry requestedActiveTools,
                    st_tools = tools registry,
                    st_providerOptions =
                      providerOptionsFor (t_providerNamespace t)
                        (pb_reasoningEffort (t_body t))\<rparr>
             in case streamText env request w1 of
                  (finalUsage, w2) \<Rightarrow> ((Inr finalUsage, log @ [CallStreamText request]), w2))"









section \<open>The mention life cycle as the specification words it\<close>

text \<open>
  The state machine of a turn, as an acceptor of the effects in order. Its state is the
  slugs of the mentions still pending and the slug of the mention that is running, if any.
  A \<^verbatim>\<open>started\<close> event is accepted only when no mention is running and only for the first
  pending mention; a terminal event (\<^verbatim>\<open>finished\<close> or \<^verbatim>\<open>error\<close>) only for the mention that
  is running; the agent lookup, the listing of knowledge files, the model call and the
  message append only while a mention is running; the batched save only when no mention is
  pending or running. At the end no mention may be pending or running.
\<close>

fun sequenced :: "jsstr list \<Rightarrow> jsstr option \<Rightarrow> effect list \<Rightarrow> bool" where
  "sequenced pending running [] = (pending = [] \<and> running = None)"
| "sequenced pending running (e # log) =
     (case e of
        WriteAgentStatus s st mid nm \<Rightarrow>
          (case running of
             None \<Rightarrow>
               (case pending of
                  [] \<Rightarrow> False
                | p # ps \<Rightarrow> s = p \<and> st = Started \<and> sequenced ps (Some p) log)
           | Some r \<Rightarrow>
               s = r \<and> (st = Finished \<or> st = Error) \<and> sequenced pending None log)
      | WriteAppendMessage m \<Rightarrow> running \<noteq> None \<and> sequenced pending running log
      | CallGetAgentBySlug s \<Rightarrow> running = Some s \<and> sequenced pending running log
      | CallGetVectorStoreFilesByUser u v \<Rightarrow> running \<noteq> None \<and> sequenced pending running log
      | CallGenerateText r \<Rightarrow> running \<noteq> None \<and> sequenced pending running log
      | CallSaveMessages rows \<Rightarrow>
          pending = [] \<and> running = None \<and> sequenced pending running log
      | ConsoleWarn s x \<Rightarrow> sequenced pending running log
      | ConsoleError c s x \<Rightarrow> sequenced pending running log
      | _ \<Rightarrow> False)"

text \<open>
  The world in which the \<^verbatim>\<open>try\<close> block of an iteration starts (after the clock and the
  id generator have been read), and what the block yields there: the thrown value or the
  body, the response header, and the agent name.
\<close>

definition try_world :: "'w collaborators \<Rightarrow> 'w \<Rightarrow> 'w" where
  "try_world env w = snd (generateUUID env (snd (newDate env w)))"

definition try_outcome :: "'w collaborators \<Rightarrow> mention_context \<Rightarrow> AgentMention \<Rightarrow> 'w \<Rightarrow> exn + jsstr" where
  "try_outcome env ctx mention w =
     fst (snd (snd (fst (try_mention env ctx (slug mention) (trim (prompt mention))
                           (try_world env w)))))"

definition try_header :: "'w collaborators \<Rightarrow> mention_context \<Rightarrow> AgentMention \<Rightarrow> 'w \<Rightarrow> jsstr" where
  "try_header env ctx mention w =
     fst (fst (try_mention env ctx (slug mention) (trim (prompt mention)) (try_world env w)))"

definition try_agentName ::
  "'w collaborators \<Rightarrow> mention_context \<Rightarrow> AgentMention \<Rightarrow> 'w \<Rightarrow> jsstr option" where
  "try_agentName env ctx mention w =
     fst (snd (fst (try_mention env ctx (slug mention) (trim (prompt mention))
                      (try_world env w))))"

text \<open>The world in which the iteration for mention number \<open>i\<close> of a turn starts.\<close>

definition world_before ::
  "'w collaborators \<Rightarrow> mention_context \<Rightarrow> AgentMention list \<Rightarrow> nat \<Rightarrow> 'w \<Rightarrow> 'w" where
  "world_before env ctx mentions i w = snd (mention_loop env ctx (take i mentions) w)"

text \<open>The effects that belong to the run of the mention with slug \<open>s\<close>, between its events.\<close>

fun inner_effect :: "jsstr \<Rightarrow> effect \<Rightarrow> bool" where
  "inner_effect s (CallGetAgentBySlug s') = (s' = s)"
| "inner_effect s (CallGetVectorStoreFilesByUser u v) = True"
| "inner_effect s (CallGenerateText r) = True"
| "inner_effect s (ConsoleWarn a x) = True"
| "inner_effect s (ConsoleError c a x) = True"
| "inner_effect s e = False"

text \<open>The text of a message with one text part.\<close>

definition message_text :: "ChatMessage \<Rightarrow> jsstr" where
  "message_text m = (case msg_parts m of [TextPart t] \<Rightarrow> t | _ \<Rightarrow> [])"

text \<open>The terminal status events of a run, in order, as pairs of slug and status.\<close>

fun terminal_events :: "effect list \<Rightarrow> (jsstr \<times> status) list" where
  "terminal_events [] = []"
| "terminal_events (e # log) =
     (case e of
        WriteAgentStatus s st mid nm \<Rightarrow>
          (if st = Started then terminal_events log else (s, st) # terminal_events log)
      | _ \<Rightarrow> terminal_events log)"


text \<open>The batches written to the message store by a run, in order.\<close>

fun save_calls :: "effect list \<Rightarrow> DBMessage list list" where
  "save_calls [] = []"
| "save_calls (e # log) =
     (case e of
        CallSaveMessages rows \<Rightarrow> rows # save_calls log
      | _ \<Rightarrow> save_calls log)"

text \<open>The messages appended to the stream by a run, in order.\<close>

fun appended :: "effect list \<Rightarrow> ChatMessage list" where
  "appended [] = []"
| "appended (e # log) =
     (case e of
        WriteAppendMessage m \<Rightarrow> m # appended log
      | _ \<Rightarrow> appended log)"

text \<open>The requests a run hands to \<^verbatim>\<open>generateText\<close> and to \<^verbatim>\<open>streamText\<close>, in order.\<close>

fun generate_requests :: "effect list \<Rightarrow> generate_request list" where
  "generate_requests [] = []"
| "generate_requests (e # log) =
     (case e of
        CallGenerateText r \<Rightarrow> r # generate_requests log
      | _ \<Rightarrow> generate_requests log)"

fun stream_requests :: "effect list \<Rightarrow> stream_request list" where
  "stream_requests [] = []"
| "stream_requests (e # log) =
     (case e of
        CallStreamText r \<Rightarrow> r # stream_requests log
      | _ \<Rightarrow> stream_requests log)"

text \<open>The listings of knowledge files a run asks for, as pairs of user and store.\<close>

fun file_listings :: "effect list \<Rightarrow> (jsstr \<times> jsstr) list" where
  "file_listings [] = []"
| "file_listings (e # log) =
     (case e of
        CallGetVectorStoreFilesByUser u v \<Rightarrow> (u, v) # file_listings log
      | _ \<Rightarrow> file_listings log)"



text \<open>
  The model invocation of a run for the agent \<open>a\<close> that starts in the world \<open>w\<close>: what
  \<^verbatim>\<open>generateText\<close> gives for the request that the run hands to it, in the world in which
  the run calls it. That world is \<open>w\<close>, or the world that the listing of the knowledge
  files leaves when the requester owns the agent and the agent has a store.
\<close>

definition model_world :: "'w collaborators \<Rightarrow> mention_context \<Rightarrow> Agent \<Rightarrow> 'w \<Rightarrow> 'w" where
  "model_world env ctx a w =
     (if truthy (vectorStoreId a) \<and> userId a = ctx_userId ctx
      then snd (getVectorStoreFilesByUser env (ctx_userId ctx) (the (vectorStoreId a)) w)
      else w)"

definition model_call ::
  "'w collaborators \<Rightarrow> mention_context \<Rightarrow> AgentMention \<Rightarrow> Agent \<Rightarrow> 'w
     \<Rightarrow> (exn + jsstr) \<times> 'w" where
  "model_call env ctx mention a w =
     generateText env
       (hd (generate_requests
              (snd (fst (agent_run env ctx (slug mention) (trim (prompt mention)) a w)))))
       (model_world env ctx a w)"

section \<open>Example collaborators\<close>

text \<open>
  Collaborators for the examples: an agent directory and a model given as functions, a
  store that accepts every write, ids and dates counted up from the state.
\<close>

definition scripted ::
  "(jsstr \<Rightarrow> exn + Agent option) \<Rightarrow> (generate_request \<Rightarrow> exn + jsstr) \<Rightarrow> nat collaborators" where
  "scripted directory model =
     \<lparr>getAgentBySlug = (\<lambda>s w. (directory s, w)),
      getVectorStoreFilesByUser = (\<lambda>u v w. (Inr [], w)),
      generateText = (\<lambda>r w. (model r, w)),
      saveMessages = (\<lambda>rows w. (Inr (), w)),
      generateUUID = (\<lambda>w. ([48 + w], Suc w)),
      newDate = (\<lambda>w. (w, w)),
      getChatModelById = (\<lambda>i. None),
      resolveProviderModelId = (\<lambda>i. js ''openai/gpt''),
      systemPrompt = (\<lambda>m h a. [])\<rparr>"

definition scripted_post ::
  "(jsstr \<Rightarrow> exn + Agent option) \<Rightarrow> (generate_request \<Rightarrow> exn + jsstr)
     \<Rightarrow> ChatMessage list option \<Rightarrow> nat post_collaborators" where
  "scripted_post directory model finish =
     \<lparr>core = scripted directory model,
      withAuth = (\<lambda>w. (Some \<lparr>ss_user = Some \<lparr>su_id = js ''u1'', su_email = js ''a@b.c'',
                                                su_firstName = None, su_lastName = None\<rparr>,
                              ss_role = js ''member''\<rparr>, w)),
      getDatabaseUserFromWorkOS = (\<lambda>u w. (Some (js ''user-1''), w)),
      getAgentWithUserState = (\<lambda>s u w. (None, w)),
      getChatById = (\<lambda>i w. (Some (js ''user-1''), w)),
      generateTitleFromUserMessage = (\<lambda>m w. ([], w)),
      saveChat = (\<lambda>i u t w. w),
      getMessagesByChatId = (\<lambda>i w. ([], w)),
      createStreamId = (\<lambda>s i w. w),
      getTextFromMessage = message_text,
      streamText = (\<lambda>r w. (None, w)),
      uiStreamFinish = (\<lambda>w. (finish, w)),
      updateChatLastContextById = (\<lambda>i u w. w)\<rparr>"

definition example_context :: mention_context where
  "example_context =
     \<lparr>ctx_chatId = js ''chat-1'',
      ctx_userId = js ''user-1'',
      ctx_defaultModelId = js ''chat-model'',
      ctx_userMessage = js ''hello'',
      ctx_requestHints = \<lparr>hint_longitude = None, hint_latitude = None, hint_city = None,
                           hint_country = None, hint_email = None, hint_name = None,
                           hint_date = None\<rparr>,
      ctx_isMemberRole = True,
      ctx_requestedActiveTools = None,
      ctx_reasoningEffort = Low\<rparr>"

text \<open>
  An agent directory for the examples: \<^verbatim>\<open>ops\<close> and \<^verbatim>\<open>sales\<close> are public agents of another
  user (\<^verbatim>\<open>ops\<close> with a knowledge store), \<^verbatim>\<open>vault\<close> is a private agent of another user,
  the lookup of \<^verbatim>\<open>db\<close> rejects, and no other slug is stored.
\<close>

definition example_directory :: "jsstr \<Rightarrow> exn + Agent option" where
  "example_directory s =
     (if s = js ''ops'' then
        Inr (Some \<lparr>name = js ''Ops Bot'', agentPrompt = None, modelId = None,
                   vectorStoreId = Some (js ''vs_1''), isPublic = True,
                   userId = js ''user-2''\<rparr>)
      else if s = js ''sales'' then
        Inr (Some \<lparr>name = js ''Sales (EU)'', agentPrompt = None, modelId = None,
                   vectorStoreId = None, isPublic = True, userId = js ''user-2''\<rparr>)
      else if s = js ''vault'' then
        Inr (Some \<lparr>name = js ''Vault'', agentPrompt = None, modelId = None,
                   vectorStoreId = None, isPublic = False, userId = js ''user-2''\<rparr>)
      else if s = js ''db'' then Inl (Exn (js ''connection lost''))
      else Inr None)"

definition failing_model :: "generate_request \<Rightarrow> exn + jsstr" where
  "failing_model r = Inl (Exn (js ''model down''))"

definition answering_model :: "generate_request \<Rightarrow> exn + jsstr" where
  "answering_model r = Inr (js ''Done.'')"

definition mention_of :: "string \<Rightarrow> AgentMention" where
  "mention_of s = \<lparr>slug = js s, prompt = []\<rparr>"

text \<open>An agent of the user of the examples, with a knowledge store.\<close>

definition example_owned_agent :: Agent where
  "example_owned_agent =
     \<lparr>name = js ''Notes'', agentPrompt = None, modelId = None,
      vectorStoreId = Some (js ''vs_9''), isPublic = False, userId = js ''user-1''\<rparr>"



text \<open>A turn of the user of the examples with a knowledge store and an allow-list.\<close>

definition example_turn :: turn where
  "example_turn =
     \<lparr>t_body =
        \<lparr>pb_id = js ''chat-1'',
         pb_message = \<lparr>msg_id = js ''m-1'', msg_role = User,
                        msg_parts = [TextPart (js ''hello'')], msg_createdAt = None\<rparr>,
         pb_reasoningEffort = Low,
         pb_selectedChatModel = None,
         pb_agentSlug = None,
         pb_agentContext = None,
         pb_activeTools = Some [js ''listGmailMessages''],
         pb_agentVectorStoreId = Some (js ''vs_9''),
         pb_agentMentions = None,
         pb_rawInput = None\<rparr>,
      t_session = \<lparr>ss_user = None, ss_role = js ''member''\<rparr>,
      t_user = \<lparr>su_id = js ''u1'', su_email = js ''a@b.c'', su_firstName = None,
                 su_lastName = None\<rparr>,
      t_databaseUserId = js ''user-1'',
      t_agentContext = None,
      t_mentions = [],
      t_uiMessages = [],
      t_userInput = js ''hello'',
      t_requestHints = ctx_requestHints example_context,
      t_resolvedVectorStoreId = Some (js ''vs_9''),
      t_knowledgeFileSummaries = [],
      t_selectedChatModelId = js ''chat-model'',
      t_providerNamespace = js ''openai''\<rparr>"



section \<open>The mention grammar as the specification words it\<close>

text \<open>
  A mention token starts at position \<open>p\<close> when the code unit there is \<^verbatim>\<open>@\<close> and the next one
  is alphanumeric. No \<^verbatim>\<open>@\<close> lies inside a token, so these positions are the starts of the
  non-overlapping matches, from left to right.
\<close>

definition is_mention_start :: "jsstr \<Rightarrow> nat \<Rightarrow> bool" where
  "is_mention_start input p \<longleftrightarrow>
     Suc p < length input \<and> input ! p = 64 \<and> isAlnum (input ! Suc p)"

definition mention_positions :: "jsstr \<Rightarrow> nat list" where
  "mention_positions input = filter (is_mention_start input) [0..<length input]"

text \<open>The slug of the token at \<open>p\<close>: the word and hyphen characters after the \<^verbatim>\<open>@\<close>, 64 at most.\<close>

definition mention_token :: "jsstr \<Rightarrow> nat \<Rightarrow> jsstr" where
  "mention_token input p = take 64 (takeWhile isWordHyphen (drop (Suc p) input))"

section \<open>Properties of the mention extractor\<close>

lemma isWordHyphen_not_at: "isWordHyphen c \<Longrightarrow> c \<noteq> 64"
  by (auto simp: isWordHyphen_def isAlnum_def)

lemma isWordHyphen_not_space: "isWordHyphen c \<Longrightarrow> \<not> isWhiteSpace c"
  by (auto simp: isWordHyphen_def isAlnum_def isWhiteSpace_def)

lemma isAlnum_isWordHyphen: "isAlnum c \<Longrightarrow> isWordHyphen c"
  by (simp add: isWordHyphen_def)

lemma match_mention_at_eq:
  "match_mention_at s = (if is_mention_start s 0 then Some (mention_token s 0) else None)"
  by (auto simp: match_mention_at_def is_mention_start_def mention_token_def
        isAlnum_isWordHyphen split: list.splits)

lemma is_mention_start_Cons: "is_mention_start (c # cs) (Suc p) = is_mention_start cs p"
  by (simp add: is_mention_start_def)

lemma mention_token_Cons: "mention_token (c # cs) (Suc p) = mention_token cs p"
  by (simp add: mention_token_def)

lemma mention_positions_Cons:
  "mention_positions (c # cs) =
     (if is_mention_start (c # cs) 0 then [0] else []) @ map Suc (mention_positions cs)"
proof -
  have "[0..<length (c # cs)] = 0 # map Suc [0..<length cs]"
    by (metis length_Cons map_Suc_upt upt_conv_Cons zero_less_Suc)
  then show ?thesis
    by (simp add: mention_positions_def filter_map comp_def is_mention_start_Cons)
qed

lemma mention_positions_Nil: "mention_positions [] = []"
  by (simp add: mention_positions_def)

lemma mention_positions_skip:
  "\<forall>x \<in> set (take n cs). x \<noteq> 64 \<Longrightarrow>
     mention_positions cs = map (\<lambda>p. p + n) (mention_positions (drop n cs))"
proof (induction n arbitrary: cs)
  case 0
  then show ?case by simp
next
  case (Suc n)
  show ?case
  proof (cases cs)
    case Nil
    then show ?thesis by (simp add: mention_positions_Nil)
  next
    case (Cons c cs')
    with Suc.prems have c: "c \<noteq> 64" and rest: "\<forall>x \<in> set (take n cs'). x \<noteq> 64"
      by simp_all
    from c have "\<not> is_mention_start (c # cs') 0"
      by (simp add: is_mention_start_def)
    then show ?thesis
      using Suc.IH [OF rest] Cons by (simp add: mention_positions_Cons)
  qed
qed

lemma mention_token_prefix:
  "take (length (mention_token s p)) (drop (Suc p) s) = mention_token s p"
proof -
  define xs where "xs = drop (Suc p) s"
  define m where "m = length (takeWhile isWordHyphen xs)"
  have "takeWhile isWordHyphen xs = take m xs"
    unfolding m_def by (rule takeWhile_eq_take)
  then have tok: "mention_token s p = take (min 64 m) xs"
    by (simp add: mention_token_def xs_def min.commute)
  have "m \<le> length xs"
    unfolding m_def by (rule length_takeWhile_le)
  then have "min (length xs) (min 64 m) = min 64 m"
    by simp
  then have "take (length (take (min 64 m) xs)) xs = take (min 64 m) xs"
    by simp
  then show ?thesis
    unfolding tok xs_def [symmetric] .
qed

lemma mention_token_word: "x \<in> set (mention_token s p) \<Longrightarrow> isWordHyphen x"
  unfolding mention_token_def by (auto dest: in_set_takeD set_takeWhileD)

lemma matchAll_from_eq:
  "matchAll_from i s =
     map (\<lambda>p. \<lparr>m_index = p + i, m_0 = 64 # mention_token s p, m_1 = mention_token s p\<rparr>)
       (mention_positions s)"
proof (induction i s rule: matchAll_from.induct)
  case (1 i)
  then show ?case by (simp add: mention_positions_Nil)
next
  case (2 i c cs)
  show ?case
  proof (cases "is_mention_start (c # cs) 0")
    case False
    then have "match_mention_at (c # cs) = None"
      by (simp add: match_mention_at_eq)
    with False "2.IH"(1) show ?thesis
      by (simp add: mention_positions_Cons comp_def mention_token_Cons)
  next
    case True
    define g where "g = mention_token (c # cs) 0"
    have m: "match_mention_at (c # cs) = Some g"
      using True by (simp add: match_mention_at_eq g_def)
    have c: "c = 64" using True by (simp add: is_mention_start_def)
    have pre: "take (length g) cs = g"
      using mention_token_prefix [of "c # cs" 0] by (simp add: g_def)
    have "\<forall>x \<in> set g. x \<noteq> 64"
      unfolding g_def by (auto dest: mention_token_word isWordHyphen_not_at)
    then have "\<forall>x \<in> set (take (length g) cs). x \<noteq> 64"
      by (simp only: pre)
    then have skip: "mention_positions cs =
        map (\<lambda>p. p + length g) (mention_positions (drop (length g) cs))"
      by (rule mention_positions_skip)
    have tok: "\<And>p. mention_token cs (p + length g) = mention_token (drop (length g) cs) p"
      by (simp add: mention_token_def add.commute)
    have g': "mention_token (64 # cs) 0 = g"
      by (simp add: g_def c)
    show ?thesis
      using "2.IH"(2) [OF m] m True c
      by (simp add: mention_positions_Cons skip comp_def mention_token_Cons tok g')
  qed
qed


lemma trim_no_space: "\<forall>x \<in> set s. \<not> isWhiteSpace x \<Longrightarrow> trim s = s"
proof -
  assume a: "\<forall>x \<in> set s. \<not> isWhiteSpace x"
  have keep: "dropWhile isWhiteSpace xs = xs" if "\<forall>x \<in> set xs. \<not> isWhiteSpace x" for xs
    using that by (cases xs) simp_all
  have "dropWhile isWhiteSpace s = s"
    using a by (rule keep)
  moreover have "dropWhile isWhiteSpace (rev s) = rev s"
    using a by (intro keep) simp
  ultimately show ?thesis
    by (simp add: trim_def trimStart_def trimEnd_def)
qed

lemma mention_token_nonempty: "is_mention_start s p \<Longrightarrow> mention_token s p \<noteq> []"
proof -
  assume a: "is_mention_start s p"
  then have "drop (Suc p) s = s ! Suc p # drop (Suc (Suc p)) s"
    by (simp add: is_mention_start_def Cons_nth_drop_Suc)
  with a show ?thesis
    by (simp add: mention_token_def is_mention_start_def isAlnum_isWordHyphen)
qed

lemma mention_positions_start:
  "i < length (mention_positions s) \<Longrightarrow> is_mention_start s (mention_positions s ! i)"
  using nth_mem [of i "mention_positions s"] by (simp add: mention_positions_def)

lemma map_filter_Some:
  "\<forall>x \<in> set xs. f x = Some (g x) \<Longrightarrow> List.map_filter (\<lambda>x. x) (map f xs) = map g xs"
  by (induction xs) (simp_all add: List.map_filter_simps)

lemma mention_positions_gap:
  assumes "Suc i < length (mention_positions s)"
  shows "mention_positions s ! i + 1 + length (mention_token s (mention_positions s ! i))
           \<le> mention_positions s ! Suc i"
proof (rule ccontr)
  define p where "p = mention_positions s ! i"
  define q where "q = mention_positions s ! Suc i"
  assume "\<not> ?thesis"
  then have close: "q < p + 1 + length (mention_token s p)"
    by (simp add: p_def q_def)
  have "sorted_wrt (<) (mention_positions s)"
    unfolding mention_positions_def by (intro sorted_wrt_filter) simp
  then have less: "p < q"
    unfolding p_def q_def using assms by (simp add: sorted_wrt_nth_less)
  define j where "j = q - Suc p"
  have j: "j < length (mention_token s p)" and q: "q = Suc p + j"
    using close less by (simp_all add: j_def)
  have "is_mention_start s q"
    unfolding q_def using assms by (rule mention_positions_start)
  then have at: "s ! q = 64" and len: "q < length s"
    by (simp_all add: is_mention_start_def)
  have "mention_token s p ! j = take (length (mention_token s p)) (drop (Suc p) s) ! j"
    by (simp only: mention_token_prefix)
  also have "\<dots> = s ! q"
    using j len by (simp add: q)
  finally have "mention_token s p ! j = 64"
    using at by simp
  moreover have "isWordHyphen (mention_token s p ! j)"
    using nth_mem [OF j] by (rule mention_token_word)
  ultimately show False
    by (auto dest: isWordHyphen_not_at)
qed

lemma extractAgentMentions_eq:
  "extractAgentMentions input =
     map (\<lambda>i. \<lparr>slug = toLowerCase (mention_token input (mention_positions input ! i)),
                prompt = trim (dropWhile isSeparator
                  (slice input
                     (mention_positions input ! i + 1
                        + length (mention_token input (mention_positions input ! i)))
                     (if Suc i < length (mention_positions input)
                      then mention_positions input ! Suc i else length input)))\<rparr>)
       [0..<length (mention_positions input)]"
proof -
  define P where "P = mention_positions input"
  define ms where "ms = matchAll input"
  have ms: "ms = map (\<lambda>p. \<lparr>m_index = p, m_0 = 64 # mention_token input p,
                              m_1 = mention_token input p\<rparr>) P"
    by (simp add: ms_def matchAll_def matchAll_from_eq P_def)
  have each: "mention_of_match input ms i =
      Some \<lparr>slug = toLowerCase (mention_token input (P ! i)),
            prompt = trim (dropWhile isSeparator
              (slice input (P ! i + 1 + length (mention_token input (P ! i)))
                 (if Suc i < length P then P ! Suc i else length input)))\<rparr>"
    if "i < length P" for i
  proof -
    have st: "is_mention_start input (P ! i)"
      using that unfolding P_def by (rule mention_positions_start)
    have "trim (mention_token input (P ! i)) = mention_token input (P ! i)"
      by (rule trim_no_space) (auto dest: mention_token_word isWordHyphen_not_space)
    then show ?thesis
      using that mention_token_nonempty [OF st]
      by (simp add: mention_of_match_def ms Let_def)
  qed
  show ?thesis
  proof (cases "input = [] \<or> length ms = 0")
    case True
    then have "length P = 0"
      by (auto simp: ms P_def mention_positions_Nil)
    with True show ?thesis
      by (auto simp: extractAgentMentions_def Let_def P_def [symmetric] ms_def [symmetric])
  next
    case False
    have len: "length ms = length P"
      by (simp add: ms)
    have "List.map_filter (\<lambda>x. x) (map (mention_of_match input ms) [0..<length P]) =
        map (\<lambda>i. \<lparr>slug = toLowerCase (mention_token input (P ! i)),
            prompt = trim (dropWhile isSeparator
              (slice input (P ! i + 1 + length (mention_token input (P ! i)))
                 (if Suc i < length P then P ! Suc i else length input)))\<rparr>) [0..<length P]"
      by (rule map_filter_Some) (simp add: each)
    moreover have "input \<noteq> []" and "ms \<noteq> []"
      using False by simp_all
    ultimately show ?thesis
      by (simp add: extractAgentMentions_def Let_def P_def [symmetric] ms_def [symmetric] len)
  qed
qed

lemma js_example: "js ''Please check @sales-bot: find Q3 numbers and @ops about deploys'' =
  [80, 108, 101, 97, 115, 101, 32, 99, 104, 101, 99, 107, 32, 64, 115, 97,
  108, 101, 115, 45, 98, 111, 116, 58, 32, 102, 105, 110, 100, 32, 81, 51,
  32, 110, 117, 109, 98, 101, 114, 115, 32, 97, 110, 100, 32, 64, 111, 112,
  115, 32, 97, 98, 111, 117, 116, 32, 100, 101, 112, 108, 111, 121, 115]"
  by (simp add: js_def)

lemmas extract_eval =
  js_def extractAgentMentions_def matchAll_def match_mention_at_def isAlnum_def
  isWordHyphen_def mention_of_match_def List.map_filter_def trim_def trimStart_def
  trimEnd_def isWhiteSpace_def isSeparator_def slice_def toLowerCase_def Let_def upt_conv_Cons

lemma extract_example:
  "extractAgentMentions (js ''Please check @sales-bot: find Q3 numbers and @ops about deploys'')
     = [\<lparr>slug = js ''sales-bot'', prompt = js ''find Q3 numbers and''\<rparr>,
        \<lparr>slug = js ''ops'', prompt = js ''about deploys''\<rparr>]"
  by (simp add: extract_eval)

lemma extract_no_at: "64 \<notin> set input \<Longrightarrow> mention_positions input = []"
  by (auto simp: mention_positions_def is_mention_start_def filter_empty_conv)
    (metis Suc_lessD nth_mem)

text \<open>
  C1: the extractor returns one entry for each of the \<open>k\<close> mention tokens of the input, in
  the order of their positions. Entry \<open>i\<close> has the lower-cased slug of token \<open>i\<close>; its prompt is
  the input from the end of token \<open>i\<close> to the start of token \<open>i + 1\<close>, or to the end of the input
  for the last token, without its leading run of whitespace, colon, hyphen and dash
  characters, and trimmed. Token \<open>i\<close> ends before token \<open>i + 1\<close> starts. The scenario of the
  specification yields its two entries; the empty input and an input without \<^verbatim>\<open>@\<close> yield
  the empty sequence.
\<close>

theorem extractAgentMentions_mentions:
  "length (extractAgentMentions input) = length (mention_positions input)
   \<and> (\<forall>i < length (mention_positions input).
        input ! (mention_positions input ! i) = 64
        \<and> isAlnum (input ! Suc (mention_positions input ! i))
        \<and> slug (extractAgentMentions input ! i)
            = toLowerCase (mention_token input (mention_positions input ! i))
        \<and> prompt (extractAgentMentions input ! i)
            = trim (dropWhile isSeparator
                (slice input
                   (mention_positions input ! i + 1
                      + length (mention_token input (mention_positions input ! i)))
                   (if Suc i < length (mention_positions input)
                    then mention_positions input ! Suc i else length input)))
        \<and> (Suc i < length (mention_positions input) \<longrightarrow>
             mention_positions input ! i + 1
               + length (mention_token input (mention_positions input ! i))
             \<le> mention_positions input ! Suc i))
   \<and> extractAgentMentions
         (js ''Please check @sales-bot: find Q3 numbers and @ops about deploys'')
       = [\<lparr>slug = js ''sales-bot'', prompt = js ''find Q3 numbers and''\<rparr>,
          \<lparr>slug = js ''ops'', prompt = js ''about deploys''\<rparr>]
   \<and> extractAgentMentions [] = []
   \<and> (64 \<notin> set input \<longrightarrow> extractAgentMentions input = [])"
proof -
  have a: "length (extractAgentMentions input) = length (mention_positions input)"
    by (subst extractAgentMentions_eq) simp
  have b: "slug (extractAgentMentions input ! i)
            = toLowerCase (mention_token input (mention_positions input ! i))
        \<and> prompt (extractAgentMentions input ! i)
            = trim (dropWhile isSeparator
                (slice input
                   (mention_positions input ! i + 1
                      + length (mention_token input (mention_positions input ! i)))
                   (if Suc i < length (mention_positions input)
                    then mention_positions input ! Suc i else length input)))"
    if "i < length (mention_positions input)" for i
    using that by (subst (1 2) extractAgentMentions_eq) simp
  have c: "input ! (mention_positions input ! i) = 64
        \<and> isAlnum (input ! Suc (mention_positions input ! i))"
    if "i < length (mention_positions input)" for i
    using mention_positions_start [OF that] by (simp add: is_mention_start_def)
  have d: "extractAgentMentions [] = []"
    by (simp add: extractAgentMentions_def)
  have e: "extractAgentMentions input = []" if "64 \<notin> set input"
    using a extract_no_at [OF that] by simp
  show ?thesis
    using a b c d e extract_example mention_positions_gap [of _ input] by blast
qed

lemma positions_example: "mention_positions (js ''hi @Ops: go'') = [3]"
  by (simp add: js_def mention_positions_Cons mention_positions_Nil is_mention_start_def isAlnum_def)

theorem extractAgentMentions_mentions_witness:
  "0 < length (mention_positions (js ''hi @Ops: go''))
   \<and> slug (extractAgentMentions (js ''hi @Ops: go'') ! 0) = js ''ops''
   \<and> prompt (extractAgentMentions (js ''hi @Ops: go'') ! 0) = js ''go''
   \<and> 64 \<notin> set (js ''hello'')
   \<and> extractAgentMentions (js ''hello'') = []"
proof -
  have "64 \<notin> set (js ''hello'')"
    by (simp add: js_def)
  moreover have "mention_token (js ''hi @Ops: go'') 3 = js ''Ops''"
    by (simp add: js_def mention_token_def isWordHyphen_def isAlnum_def)
  ultimately show ?thesis
    using extractAgentMentions_mentions [of "js ''hi @Ops: go''"]
      extractAgentMentions_mentions [of "js ''hello''"]
    by (simp add: positions_example) (simp add: extract_eval)
qed

section \<open>Properties of the directive pattern\<close>

lemma canonicalize_ascii:
  "c < 128 \<Longrightarrow> canonicalize up c = (if 97 \<le> c \<and> c \<le> 122 then c - 32 else c)"
  by (simp add: canonicalize_def)

lemma canonicalize_keeps_range:
  "128 \<le> c \<Longrightarrow> 128 \<le> canonicalize up c"
  by (auto simp: canonicalize_def Let_def split: list.splits)

text \<open>
  Whatever the case table, a code unit has the canonical form of an ASCII code unit only
  when it is an ASCII code unit with the same upper-case form.
\<close>

lemma canonicalize_eq_ascii:
  assumes "l < 128"
  shows "canonicalize up c = canonicalize up l \<longleftrightarrow>
           c < 128 \<and> (if 97 \<le> c \<and> c \<le> 122 then c - 32 else c)
                      = (if 97 \<le> l \<and> l \<le> 122 then l - 32 else l)"
proof (cases "c < 128")
  case True
  with assms show ?thesis
    by (simp add: canonicalize_ascii)
next
  case False
  then have "128 \<le> canonicalize up c"
    by (intro canonicalize_keeps_range) simp
  moreover have "canonicalize up l < 128"
    using assms by (auto simp: canonicalize_ascii)
  ultimately show ?thesis
    using False by simp
qed

text \<open>
  So the classes \<^verbatim>\<open>[a-z0-9]\<close> and \<^verbatim>\<open>[\w-]\<close> hold the same code units under the \<^verbatim>\<open>i\<close>
  flag for every case table.
\<close>

lemma isAlnum_canonical:
  "isAlnum c \<longleftrightarrow> canonicalize up c \<in> canonicalize up ` ({97..122} \<union> {48..57})"
proof
  assume a: "isAlnum c"
  define l where "l = (if 65 \<le> c \<and> c \<le> 90 then c + 32 else c)"
  have "l \<in> {97..122} \<union> {48..57}"
    using a by (auto simp: isAlnum_def l_def)
  moreover have "canonicalize up c = canonicalize up l"
    using a by (auto simp: isAlnum_def l_def canonicalize_ascii)
  ultimately show "canonicalize up c \<in> canonicalize up ` ({97..122} \<union> {48..57})"
    by (simp only: imageI)
next
  assume "canonicalize up c \<in> canonicalize up ` ({97..122} \<union> {48..57})"
  then obtain l where eq: "canonicalize up c = canonicalize up l"
    and l: "l \<in> {97..122} \<union> {48..57}"
    by (rule imageE)
  from l have "l < 128" by auto
  from canonicalize_eq_ascii [OF this, of up c] eq l show "isAlnum c"
    by (auto simp: isAlnum_def split: if_splits)
qed

lemma isWordHyphen_canonical:
  "isWordHyphen c \<longleftrightarrow>
     canonicalize up c \<in> canonicalize up ` ({97..122} \<union> {65..90} \<union> {48..57} \<union> {95} \<union> {45})"
proof
  assume "isWordHyphen c"
  then have "c \<in> {97..122} \<union> {65..90} \<union> {48..57} \<union> {95} \<union> {45}"
    by (auto simp: isWordHyphen_def isAlnum_def)
  then show "canonicalize up c \<in> canonicalize up ` ({97..122} \<union> {65..90} \<union> {48..57} \<union> {95} \<union> {45})"
    by (rule imageI)
next
  assume "canonicalize up c \<in> canonicalize up ` ({97..122} \<union> {65..90} \<union> {48..57} \<union> {95} \<union> {45})"
  then obtain l where eq: "canonicalize up c = canonicalize up l"
    and l: "l \<in> {97..122} \<union> {65..90} \<union> {48..57} \<union> {95} \<union> {45}"
    by (rule imageE)
  from l have "l < 128" by auto
  from canonicalize_eq_ascii [OF this, of up c] eq l show "isWordHyphen c"
    by (auto simp: isWordHyphen_def isAlnum_def split: if_splits)
qed

text \<open>
  The class of the directive pattern on ASCII: the code units from the colon on. The
  space, the tab, the line feed and the hyphen are not in it.
\<close>

lemma inDirectiveClass_ascii:
  assumes "c < 128"
  shows "inDirectiveClass up c \<longleftrightarrow> 58 \<le> c"
proof
  assume "inDirectiveClass up c"
  then obtain a where a: "a \<in> directiveClass" and eq: "canonicalize up a = canonicalize up c"
    by (auto simp: inDirectiveClass_def)
  from a have a58: "58 \<le> a"
    by (auto simp: directiveClass_def)
  from canonicalize_eq_ascii [OF assms, of up a] eq a58 show "58 \<le> c"
    by (auto split: if_splits)
next
  assume "58 \<le> c"
  with assms have "c \<in> directiveClass"
    by (auto simp: directiveClass_def)
  then show "inDirectiveClass up c"
    by (auto simp: inDirectiveClass_def)
qed

text \<open>Every member of the class is in it under the \<^verbatim>\<open>i\<close> flag, whatever the case table.\<close>

lemma inDirectiveClass_member: "c \<in> directiveClass \<Longrightarrow> inDirectiveClass up c"
  by (auto simp: inDirectiveClass_def)

text \<open>
  With the rows of the case table for two code units from 128 on: a code unit outside the
  range of the class is in the class when its upper-case form is a member, and a prompt
  matches whatever the case of its letters.
\<close>

lemma inDirectiveClass_by_case_table:
  assumes "toUppercase 11365 = [570]" and "toUppercase 570 = [570]"
  shows "inDirectiveClass toUppercase 11365"
proof -
  have "canonicalize toUppercase 11365 = canonicalize toUppercase 570"
    using assms by (simp add: canonicalize_def)
  moreover have "570 \<in> directiveClass"
    by (simp add: directiveClass_def)
  ultimately show ?thesis
    unfolding inDirectiveClass_def by (simp only: imageI)
qed

lemma stripAgentDirectiveText_by_case_table:
  assumes "toUppercase 233 = [201]" and "toUppercase 201 = [201]"
  shows "stripAgentDirectiveText toUppercase (js ''x @ops:'' @ [201, 116, 233])
           [\<lparr>slug = js ''ops'', prompt = [233, 116, 201]\<rparr>]
         = js ''x @ops''"
  using assms
  by (simp add: stripAgentDirectiveText_def replace_directive_def match_directive_at_def
        matches_ci_def canonicalize_def inDirectiveClass_ascii inDirectiveClass_member
        directiveClass_def js_def Let_def slice_def
        trim_def trimStart_def trimEnd_def isWhiteSpace_def upt_conv_Cons)

text \<open>
  C6: \<^verbatim>\<open>stripAgentDirectiveText\<close> evaluated on \<^verbatim>\<open>hi @ops about deploys\<close> with the mention
  the extractor finds in it (slug \<^verbatim>\<open>ops\<close>, prompt \<^verbatim>\<open>about deploys\<close>). The directive is
  not at position 0 and a space separates slug and prompt, yet the text comes back
  unchanged, whatever the case table: the separator class of the directive pattern holds
  neither the space nor the hyphen. With a colon as the only separator the directive is
  replaced by \<^verbatim>\<open>@ops\<close>.
\<close>

theorem stripAgentDirectiveText_keeps_space_separated_directive:
  "extractAgentMentions (js ''hi @ops about deploys'')
     = [\<lparr>slug = js ''ops'', prompt = js ''about deploys''\<rparr>]
   \<and> stripAgentDirectiveText toUppercase (js ''hi @ops about deploys'')
       (extractAgentMentions (js ''hi @ops about deploys''))
     = js ''hi @ops about deploys''
   \<and> stripAgentDirectiveText toUppercase (js ''hi @ops:about deploys'')
       [\<lparr>slug = js ''ops'', prompt = js ''about deploys''\<rparr>]
     = js ''hi @ops''"
proof -
  have e: "extractAgentMentions (js ''hi @ops about deploys'')
     = [\<lparr>slug = js ''ops'', prompt = js ''about deploys''\<rparr>]"
    by (simp add: extract_eval)
  have "stripAgentDirectiveText toUppercase (js ''hi @ops about deploys'')
       [\<lparr>slug = js ''ops'', prompt = js ''about deploys''\<rparr>]
     = js ''hi @ops about deploys''"
    by (simp add: stripAgentDirectiveText_def replace_directive_def match_directive_at_def
          matches_ci_def canonicalize_def inDirectiveClass_ascii js_def Let_def
          trim_def trimStart_def trimEnd_def isWhiteSpace_def)
  moreover have "stripAgentDirectiveText toUppercase (js ''hi @ops:about deploys'')
       [\<lparr>slug = js ''ops'', prompt = js ''about deploys''\<rparr>]
     = js ''hi @ops''"
    by (simp add: stripAgentDirectiveText_def replace_directive_def match_directive_at_def
          matches_ci_def canonicalize_def inDirectiveClass_ascii js_def Let_def slice_def
          trim_def trimStart_def trimEnd_def isWhiteSpace_def upt_conv_Cons)
  ultimately show ?thesis
    using e by simp
qed

section \<open>Properties of the mention life cycle\<close>

lemma sequenced_inner:
  "list_all (inner_effect s) log \<Longrightarrow>
     sequenced ps (Some s) (log @ rest) = sequenced ps (Some s) rest"
proof (induction log)
  case Nil
  then show ?case by simp
next
  case (Cons e log)
  then show ?case by (cases e) simp_all
qed

lemma agent_run_inner:
  "agent_run env ctx s p a w = ((outcome, log), w') \<Longrightarrow> list_all (inner_effect s) log"
  by (auto simp: agent_run_def Let_def split: prod.splits sum.splits option.splits)

lemma try_mention_inner:
  "try_mention env ctx s p w = ((header, nm, outcome, log), w') \<Longrightarrow>
     list_all (inner_effect s) log"
  by (auto simp: try_mention_def split: prod.splits sum.splits option.splits if_splits
        dest: agent_run_inner)


lemma mention_iteration_eq:
  "mention_iteration env ctx mention w =
     (case try_mention env ctx (slug mention) (trim (prompt mention)) (try_world env w) of
        ((header, nm, outcome, log), w') \<Rightarrow>
          let ident = fst (generateUUID env (snd (newDate env w)));
              now = fst (newDate env w);
              body = (case outcome of
                        Inr b \<Rightarrow> b
                      | Inl error \<Rightarrow>
                          js ''Encountered an error while running @'' @ slug mention @ js ''.'');
              ui = \<lparr>msg_id = ident, msg_role = Assistant,
                    msg_parts = [TextPart (js ''### Response from '' @ header @ [10, 10] @ body)],
                    msg_createdAt = Some now\<rparr>
          in ((ui,
               \<lparr>db_id = ident, db_chatId = ctx_chatId ctx, db_role = Assistant,
                db_parts = msg_parts ui, db_attachments = [], db_createdAt = now\<rparr>,
               WriteAgentStatus (slug mention) Started None None # log
                 @ (case outcome of
                      Inr b \<Rightarrow> []
                    | Inl error \<Rightarrow> [ConsoleError (ctx_chatId ctx) (slug mention) error])
                 @ [WriteAppendMessage ui,
                    WriteAgentStatus (slug mention)
                      (case outcome of Inr b \<Rightarrow> Finished | Inl error \<Rightarrow> Error)
                      (Some ident) nm]),
              w'))"
  by (simp add: mention_iteration_def try_world_def Let_def split: prod.splits)

lemma mention_iteration_sequenced:
  "mention_iteration env ctx mention w = ((ui, db, log), w') \<Longrightarrow>
     sequenced (slug mention # ps) None (log @ rest) = sequenced ps None rest"
proof -
  assume a: "mention_iteration env ctx mention w = ((ui, db, log), w')"
  obtain header nm outcome tlog w1 where
    t: "try_mention env ctx (slug mention) (trim (prompt mention)) (try_world env w)
          = ((header, nm, outcome, tlog), w1)"
    by (metis prod.exhaust)
  have inner: "list_all (inner_effect (slug mention)) tlog"
    using t by (rule try_mention_inner)
  show ?thesis
  proof (cases outcome)
    case (Inl e)
    with a t have "log = WriteAgentStatus (slug mention) Started None None # tlog
        @ ConsoleError (ctx_chatId ctx) (slug mention) e
        # [WriteAppendMessage ui, WriteAgentStatus (slug mention) Error (Some (msg_id ui)) nm]"
      by (auto simp: mention_iteration_eq Let_def)
    then show ?thesis
      by (simp add: sequenced_inner [OF inner])
  next
    case (Inr b)
    with a t have "log = WriteAgentStatus (slug mention) Started None None # tlog
        @ [WriteAppendMessage ui, WriteAgentStatus (slug mention) Finished (Some (msg_id ui)) nm]"
      by (auto simp: mention_iteration_eq Let_def)
    then show ?thesis
      by (simp add: sequenced_inner [OF inner])
  qed
qed

lemma mention_loop_sequenced:
  "mention_loop env ctx mentions w = ((msgs, rows, log), w') \<Longrightarrow>
     sequenced (map slug mentions @ ps) None (log @ rest) = sequenced ps None rest"
proof (induction mentions arbitrary: w msgs rows log w')
  case Nil
  then show ?case by simp
next
  case (Cons m ms)
  obtain ui db l1 w1 where i: "mention_iteration env ctx m w = ((ui, db, l1), w1)"
    by (metis prod.exhaust)
  obtain msgs' rows' l2 w2 where l: "mention_loop env ctx ms w1 = ((msgs', rows', l2), w2)"
    by (metis prod.exhaust)
  have "log = l1 @ l2"
    using Cons.prems i l by simp
  then show ?case
    using mention_iteration_sequenced [OF i, of "map slug ms @ ps" "l2 @ rest"]
      Cons.IH [OF l] by simp
qed

lemma mention_loop_length:
  "mention_loop env ctx mentions w = ((msgs, rows, log), w') \<Longrightarrow>
     length msgs = length mentions \<and> length rows = length mentions"
proof (induction mentions arbitrary: w msgs rows log w')
  case Nil
  then show ?case by simp
next
  case (Cons m ms)
  then show ?case
    by (auto split: prod.splits)
qed

lemma handleAgentMentions_sequenced:
  "sequenced (map slug mentions) None (snd (fst (handleAgentMentions env ctx mentions w)))"
proof (cases "mentions = []")
  case True
  then show ?thesis by (simp add: handleAgentMentions_def)
next
  case False
  obtain msgs rows log w1 where l: "mention_loop env ctx mentions w = ((msgs, rows, log), w1)"
    by (metis prod.exhaust)
  have a: "sequenced (map slug mentions) None (log @ rest) = sequenced [] None rest" for rest
    using mention_loop_sequenced [OF l, of "[]" rest] by simp
  have b: "sequenced (map slug mentions) None log"
    using a [of "[]"] by simp
  show ?thesis
    using False l a [of "[CallSaveMessages rows]"] b
    by (simp add: handleAgentMentions_def split: prod.splits sum.splits)
qed


lemma sequenced_terminal_events:
  "sequenced pending running log \<Longrightarrow>
     map fst (terminal_events log) = (case running of None \<Rightarrow> pending | Some r \<Rightarrow> r # pending)"
proof (induction log arbitrary: pending running)
  case Nil
  then show ?case by simp
next
  case (Cons e log)
  show ?case
  proof (cases e)
    case (WriteAgentStatus s st mid nm)
    then show ?thesis
      using Cons.prems Cons.IH by (auto split: option.splits list.splits)
  next
    case (CallSaveMessages x)
    then show ?thesis
      using Cons.prems Cons.IH [of "[]" None] by auto
  qed (use Cons in \<open>auto split: option.splits\<close>)
qed

lemma terminal_events_append:
  "terminal_events (xs @ ys) = terminal_events xs @ terminal_events ys"
  by (induction xs) (auto split: effect.splits)

lemma appended_append: "appended (xs @ ys) = appended xs @ appended ys"
  by (induction xs) (auto split: effect.splits)

lemma save_calls_append: "save_calls (xs @ ys) = save_calls xs @ save_calls ys"
  by (induction xs) (auto split: effect.splits)

lemma generate_requests_append:
  "generate_requests (xs @ ys) = generate_requests xs @ generate_requests ys"
  by (induction xs) (auto split: effect.splits)

lemma inner_no_events:
  "list_all (inner_effect s) log \<Longrightarrow>
     terminal_events log = [] \<and> appended log = [] \<and> save_calls log = []"
proof (induction log)
  case Nil
  then show ?case by simp
next
  case (Cons e log)
  then show ?case by (cases e) simp_all
qed

text \<open>What one iteration leaves in the trace, in terms of the outcome of its try block.\<close>

lemma mention_iteration_events:
  assumes "mention_iteration env ctx mention w = ((ui, db, log), w')"
  shows "terminal_events log =
           [(slug mention,
             case try_outcome env ctx mention w of Inr b \<Rightarrow> Finished | Inl e \<Rightarrow> Error)]"
    and "appended log = [ui]"
    and "save_calls log = []"
    and "message_text ui =
           js ''### Response from '' @ try_header env ctx mention w @ [10, 10]
             @ (case try_outcome env ctx mention w of
                  Inr b \<Rightarrow> b
                | Inl e \<Rightarrow> js ''Encountered an error while running @'' @ slug mention @ js ''.'')"
    and "w' = snd (try_mention env ctx (slug mention) (trim (prompt mention)) (try_world env w))"
proof -
  obtain header nm outcome tlog w1 where
    t: "try_mention env ctx (slug mention) (trim (prompt mention)) (try_world env w)
          = ((header, nm, outcome, tlog), w1)"
    by (metis prod.exhaust)
  have inner: "terminal_events tlog = [] \<and> appended tlog = [] \<and> save_calls tlog = []"
    using try_mention_inner [OF t] by (rule inner_no_events)
  have o: "try_outcome env ctx mention w = outcome" and h: "try_header env ctx mention w = header"
    using t by (simp_all add: try_outcome_def try_header_def)
  show "terminal_events log =
           [(slug mention,
             case try_outcome env ctx mention w of Inr b \<Rightarrow> Finished | Inl e \<Rightarrow> Error)]"
    using assms t inner unfolding o
    by (cases outcome)
      (auto simp: mention_iteration_eq Let_def terminal_events_append)
  show "appended log = [ui]"
    using assms t inner
    by (cases outcome) (auto simp: mention_iteration_eq Let_def appended_append)
  show "save_calls log = []"
    using assms t inner
    by (cases outcome) (auto simp: mention_iteration_eq Let_def save_calls_append)
  show "message_text ui =
           js ''### Response from '' @ try_header env ctx mention w @ [10, 10]
             @ (case try_outcome env ctx mention w of
                  Inr b \<Rightarrow> b
                | Inl e \<Rightarrow> js ''Encountered an error while running @'' @ slug mention @ js ''.'')"
    using assms t unfolding o h
    by (auto simp: mention_iteration_eq Let_def message_text_def)
  show "w' = snd (try_mention env ctx (slug mention) (trim (prompt mention)) (try_world env w))"
    using assms t by (auto simp: mention_iteration_eq Let_def)
qed

lemma world_before_0: "world_before env ctx mentions 0 w = w"
  by (simp add: world_before_def)

lemma world_before_Suc:
  "world_before env ctx (m # ms) (Suc i) w =
     world_before env ctx ms i (snd (mention_iteration env ctx m w))"
  by (simp add: world_before_def split: prod.splits)

text \<open>What the loop leaves in the trace for mention number \<open>i\<close>.\<close>

lemma mention_loop_nth:
  assumes "mention_loop env ctx mentions w = ((msgs, rows, log), w')"
    and "i < length mentions"
  shows "terminal_events log ! i =
           (slug (mentions ! i),
            case try_outcome env ctx (mentions ! i) (world_before env ctx mentions i w) of
              Inr b \<Rightarrow> Finished | Inl e \<Rightarrow> Error)
         \<and> message_text (appended log ! i) =
             js ''### Response from ''
               @ try_header env ctx (mentions ! i) (world_before env ctx mentions i w)
               @ [10, 10]
               @ (case try_outcome env ctx (mentions ! i) (world_before env ctx mentions i w) of
                    Inr b \<Rightarrow> b
                  | Inl e \<Rightarrow>
                      js ''Encountered an error while running @'' @ slug (mentions ! i) @ js ''.'')"
  using assms
proof (induction mentions arbitrary: w msgs rows log w' i)
  case Nil
  then show ?case by simp
next
  case (Cons m ms)
  obtain ui db l1 w1 where it: "mention_iteration env ctx m w = ((ui, db, l1), w1)"
    by (metis prod.exhaust)
  obtain msgs' rows' l2 w2 where l: "mention_loop env ctx ms w1 = ((msgs', rows', l2), w2)"
    by (metis prod.exhaust)
  have log: "log = l1 @ l2"
    using Cons.prems(1) it l by simp
  note ev = mention_iteration_events [OF it]
  show ?case
  proof (cases i)
    case 0
    then show ?thesis
      using ev
      by (simp add: log terminal_events_append appended_append world_before_0
            cong: sum.case_cong)
  next
    case (Suc j)
    then have j: "j < length ms"
      using Cons.prems(2) by simp
    have w1: "snd (mention_iteration env ctx m w) = w1"
      using it by simp
    show ?thesis
      using Cons.IH [OF l j] ev(1,2)
      by (simp add: Suc log terminal_events_append appended_append world_before_Suc w1
            cong: sum.case_cong)
  qed
qed


lemma handleAgentMentions_eq:
  assumes "mention_loop env ctx mentions w = ((msgs, rows, log), w1)"
    and "mentions \<noteq> []"
  shows "handleAgentMentions env ctx mentions w =
           ((case fst (saveMessages env rows w1) of Inl e \<Rightarrow> Inl e | Inr u \<Rightarrow> Inr msgs,
             log @ [CallSaveMessages rows]),
            snd (saveMessages env rows w1))"
  using assms mention_loop_length [OF assms(1)]
  by (auto simp: handleAgentMentions_def split: prod.splits sum.splits)

lemma handleAgentMentions_events:
  assumes "mention_loop env ctx mentions w = ((msgs, rows, log), w1)"
  shows "terminal_events (snd (fst (handleAgentMentions env ctx mentions w))) = terminal_events log"
    and "appended (snd (fst (handleAgentMentions env ctx mentions w))) = appended log"
proof -
  show "terminal_events (snd (fst (handleAgentMentions env ctx mentions w))) = terminal_events log"
  proof (cases "mentions = []")
    case True
    with assms show ?thesis by (simp add: handleAgentMentions_def)
  next
    case False
    show ?thesis
      by (simp add: handleAgentMentions_eq [OF assms False] terminal_events_append)
  qed
  show "appended (snd (fst (handleAgentMentions env ctx mentions w))) = appended log"
  proof (cases "mentions = []")
    case True
    with assms show ?thesis by (simp add: handleAgentMentions_def)
  next
    case False
    show ?thesis
      by (simp add: handleAgentMentions_eq [OF assms False] appended_append)
  qed
qed


text \<open>
  C2: during one turn \<^verbatim>\<open>handleAgentMentions\<close> processes the mentions one after the other,
  in the given order. Its effects are accepted by the life-cycle acceptor that starts with
  the slugs of the mentions pending and none running: every mention gets exactly one
  \<^verbatim>\<open>started\<close> event, written before its agent lookup and its model call, and exactly one
  terminal event (\<^verbatim>\<open>finished\<close> or \<^verbatim>\<open>error\<close>) after them, and the \<^verbatim>\<open>started\<close> event of a
  mention is never written before the terminal event of the mention before it. The
  terminal events name the mentions in their order.
\<close>

theorem handleAgentMentions_sequential:
  "sequenced (map slug mentions) None (snd (fst (handleAgentMentions env ctx mentions w)))
   \<and> map fst (terminal_events (snd (fst (handleAgentMentions env ctx mentions w))))
       = map slug mentions"
  using handleAgentMentions_sequenced [of mentions env ctx w]
    sequenced_terminal_events [of "map slug mentions" None
      "snd (fst (handleAgentMentions env ctx mentions w))"]
  by simp

lemma try_lookup:
  assumes "fst (getAgentBySlug env (slug m) (try_world env w)) = Inr found"
    and "found = None \<or> (\<exists>a. found = Some a \<and> \<not> isPublic a \<and> userId a \<noteq> ctx_userId ctx)"
  shows "try_header env ctx m w = 64 # slug m"
    and "try_outcome env ctx m w =
           Inr (case found of
                  None \<Rightarrow> js ''No agent named @'' @ slug m @ js '' is available.''
                | Some a \<Rightarrow>
                    js ''You do not have access to @'' @ slug m
                      @ js ''. Ask the owner to make it public or share it with you.'')"
  using assms
  by (auto simp: try_header_def try_outcome_def try_mention_def split: prod.splits)

text \<open>
  C4: when the lookup for mention number \<open>i\<close> finds no agent record, or finds an agent that
  is not public and belongs to another user than the requester, the terminal event of that
  mention has the status \<^verbatim>\<open>finished\<close>. The message is the heading followed by
  \<^verbatim>\<open>No agent named @<slug> is available.\<close> in the first case and by
  \<^verbatim>\<open>You do not have access to @<slug>. Ask the owner to make it public or share it with you.\<close>
  in the second.
\<close>

theorem mention_rejection_finished:
  assumes "i < length mentions"
    and "fst (getAgentBySlug env (slug (mentions ! i))
               (try_world env (world_before env ctx mentions i w))) = Inr found"
    and "found = None \<or> (\<exists>a. found = Some a \<and> \<not> isPublic a \<and> userId a \<noteq> ctx_userId ctx)"
  shows "terminal_events (snd (fst (handleAgentMentions env ctx mentions w))) ! i
           = (slug (mentions ! i), Finished)
         \<and> message_text (appended (snd (fst (handleAgentMentions env ctx mentions w))) ! i)
             = js ''### Response from @'' @ slug (mentions ! i) @ [10, 10]
                 @ (case found of
                      None \<Rightarrow> js ''No agent named @'' @ slug (mentions ! i) @ js '' is available.''
                    | Some a \<Rightarrow>
                        js ''You do not have access to @'' @ slug (mentions ! i)
                          @ js ''. Ask the owner to make it public or share it with you.'')"
proof -
  obtain msgs rows log w1 where l: "mention_loop env ctx mentions w = ((msgs, rows, log), w1)"
    by (metis prod.exhaust)
  show ?thesis
    using mention_loop_nth [OF l assms(1)] try_lookup [OF assms(2,3)]
    by (simp add: handleAgentMentions_events [OF l] js_def)
qed

text \<open>
  The thrown value of a \<^verbatim>\<open>try\<close> block comes from the agent lookup or from
  \<^verbatim>\<open>generateText\<close>.
\<close>

lemma try_outcome_lookup_rejected:
  "fst (getAgentBySlug env (slug m) (try_world env w)) = Inl e \<Longrightarrow>
     try_outcome env ctx m w = Inl e"
  by (auto simp: try_outcome_def try_mention_def split: prod.splits)

lemma agent_run_thrown:
  assumes "fst (fst (agent_run env ctx s p a w)) = Inl e"
  shows "\<exists>r w'. fst (generateText env r w') = Inl e"
proof (rule ccontr)
  assume "\<not> ?thesis"
  then have n: "generateText env r w' \<noteq> (Inl e, w'')" for r w' w''
    by (metis fst_conv)
  have "fst (fst (agent_run env ctx s p a w)) \<noteq> Inl e"
    unfolding agent_run_def Let_def
    by (auto simp: n split: prod.splits sum.splits)
  with assms show False by simp
qed

lemma try_outcome_thrown_cases:
  assumes "try_outcome env ctx m w = Inl e"
  shows "fst (getAgentBySlug env (slug m) (try_world env w)) = Inl e
     \<or> (\<exists>r w'. fst (generateText env r w') = Inl e)"
proof (cases "getAgentBySlug env (slug m) (try_world env w)")
  case (Pair found w1)
  show ?thesis
  proof (cases found)
    case (Inl x)
    with Pair assms show ?thesis
      by (simp add: try_outcome_def try_mention_def)
  next
    case (Inr found')
    show ?thesis
    proof (cases found')
      case None
      with Pair Inr assms show ?thesis
        by (simp add: try_outcome_def try_mention_def)
    next
      case (Some a)
      show ?thesis
      proof (cases "\<not> isPublic a \<and> userId a \<noteq> ctx_userId ctx")
        case True
        with Pair Inr Some assms show ?thesis
          by (simp add: try_outcome_def try_mention_def)
      next
        case False
        with Pair Inr Some assms
        have "fst (fst (agent_run env ctx (slug m) (trim (prompt m)) a w1)) = Inl e"
          by (simp add: try_outcome_def try_mention_def split: prod.splits)
        then have "\<exists>r w'. fst (generateText env r w') = Inl e"
          by (rule agent_run_thrown)
        then show ?thesis ..
      qed
    qed
  qed
qed

text \<open>
  A rejected listing of knowledge files does not end the run: when the model answers, the
  run has a body, whatever the listing did.
\<close>

lemma agent_run_answers:
  assumes "\<And>r w. \<exists>t. fst (generateText env r w) = Inr t"
  shows "\<exists>b. fst (fst (agent_run env ctx s p a w)) = Inr b"
proof (cases "fst (fst (agent_run env ctx s p a w))")
  case (Inl e)
  from agent_run_thrown [OF this] obtain r w' where "fst (generateText env r w') = Inl e"
    by blast
  with assms [of r w'] show ?thesis by simp
next
  case (Inr b)
  then show ?thesis by blast
qed

lemma run_result:
  "fst (fst (case p of
               (Inl error, w') \<Rightarrow> ((Inl error, lg), w')
             | (Inr text, w') \<Rightarrow> ((Inr (f text), lg), w')))
     = (case fst p of Inl e \<Rightarrow> Inl e | Inr t \<Rightarrow> Inr (f t))"
  "snd (fst (case p of
               (Inl error, w') \<Rightarrow> ((Inl error, lg), w')
             | (Inr text, w') \<Rightarrow> ((Inr (f text), lg), w')))
     = lg"
  by (cases p; cases "fst p"; simp)+


text \<open>
  The request of that invocation, field by field: the resolved model, the system prompt
  for the agent with the knowledge files the listing gave (none when it rejected or was
  not asked), the instruction built from the user's message and the mention, and the
  tools of the registry for the store the run may use.
\<close>

lemma model_call_request:
  "\<exists>files.
     model_call env ctx m a w =
       generateText env
         \<lparr>g_model =
            (case getChatModelById env (case modelId a of None \<Rightarrow> [] | Some x \<Rightarrow> x) of
               Some i \<Rightarrow> i
             | None \<Rightarrow> ctx_defaultModelId ctx),
          g_system =
            systemPrompt env
              (case getChatModelById env (case modelId a of None \<Rightarrow> [] | Some x \<Rightarrow> x) of
                 Some i \<Rightarrow> i
               | None \<Rightarrow> ctx_defaultModelId ctx)
              (ctx_requestHints ctx)
              (Some \<lparr>ac_agentPrompt = (case agentPrompt a of None \<Rightarrow> [] | Some p \<Rightarrow> p),
                     ac_agentName = name a,
                     ac_knowledgeFiles = files\<rparr>),
          g_prompt = buildAgentInstruction (ctx_userMessage ctx) (trim (prompt m)) (slug m),
          g_tools =
            tools (createToolRegistry (ctx_userId ctx)
              (if truthy (vectorStoreId a) \<and> userId a = ctx_userId ctx
               then vectorStoreId a else None)
              (takeWhile (\<lambda>c. c \<noteq> 47)
                 (resolveProviderModelId env
                    (case getChatModelById env (case modelId a of None \<Rightarrow> [] | Some x \<Rightarrow> x) of
                       Some i \<Rightarrow> i
                     | None \<Rightarrow> ctx_defaultModelId ctx)))
              (\<not> ctx_isMemberRole ctx)),
          g_activeTools =
            activeToolsForAgent (createToolRegistry (ctx_userId ctx)
              (if truthy (vectorStoreId a) \<and> userId a = ctx_userId ctx
               then vectorStoreId a else None)
              (takeWhile (\<lambda>c. c \<noteq> 47)
                 (resolveProviderModelId env
                    (case getChatModelById env (case modelId a of None \<Rightarrow> [] | Some x \<Rightarrow> x) of
                       Some i \<Rightarrow> i
                     | None \<Rightarrow> ctx_defaultModelId ctx)))
              (\<not> ctx_isMemberRole ctx))
              (ctx_requestedActiveTools ctx),
          g_stepLimit = 20,
          g_providerOptions =
            providerOptionsFor
              (takeWhile (\<lambda>c. c \<noteq> 47)
                 (resolveProviderModelId env
                    (case getChatModelById env (case modelId a of None \<Rightarrow> [] | Some x \<Rightarrow> x) of
                       Some i \<Rightarrow> i
                     | None \<Rightarrow> ctx_defaultModelId ctx)))
              (ctx_reasoningEffort ctx)\<rparr>
         (model_world env ctx a w)"
proof (cases "truthy (vectorStoreId a) \<and> userId a = ctx_userId ctx")
  case False
  then have st: "(if truthy (vectorStoreId a) \<and> userId a = ctx_userId ctx
                  then vectorStoreId a else None) = None"
    by (simp only: if_False)
  have ms: "model_world env ctx a w = w"
    using False by (simp only: model_world_def if_False)
  show ?thesis
    unfolding model_call_def ms agent_run_def Let_def st
    by (intro exI [of _ "[]"]) (simp add: run_result)
next
  case True
  then obtain v where v: "vectorStoreId a = Some v"
    by (cases "vectorStoreId a") (simp_all add: truthy_def)
  have st: "(if truthy (vectorStoreId a) \<and> userId a = ctx_userId ctx
             then vectorStoreId a else None) = Some v"
    using True v by simp
  obtain r w1 where g: "getVectorStoreFilesByUser env (ctx_userId ctx) v w = (r, w1)"
    by (metis prod.exhaust)
  have ms: "model_world env ctx a w = w1"
    using True v g by (simp add: model_world_def)
  show ?thesis
  proof (cases r)
    case (Inl x)
    show ?thesis
      unfolding model_call_def ms agent_run_def Let_def st
      by (intro exI [of _ "[]"]) (simp add: g Inl run_result generate_requests_append)
  next
    case (Inr fs)
    show ?thesis
      unfolding model_call_def ms agent_run_def Let_def st
      by (intro exI [of _ "map (\<lambda>file. \<lparr>kf_id = vectorStoreFileId file, kf_name = fileName file,
                                       kf_sizeBytes = fileSizeBytes file\<rparr>) fs"])
        (simp add: g Inr run_result generate_requests_append)
  qed
qed




lemmas example_eval =
  scripted_def example_directory_def failing_model_def answering_model_def mention_of_def
  example_context_def js_def

lemma ex_world: "world_before (scripted d m) ctx ms 0 w = w"
  by (simp add: world_before_def)

lemma ex_try_world: "try_world (scripted d m) w = Suc w"
  by (simp add: try_world_def scripted_def)

lemmas run_eval =
  handleAgentMentions_def mention_iteration_def try_mention_def agent_run_def Let_def
  trim_def trimStart_def trimEnd_def truthy_def

theorem handleAgentMentions_sequential_witness:
  "sequenced [js ''ops'', js ''ghost''] None
     (snd (fst (handleAgentMentions (scripted example_directory failing_model) example_context
        [mention_of ''ops'', mention_of ''ghost''] 0)))
   \<and> terminal_events
       (snd (fst (handleAgentMentions (scripted example_directory failing_model) example_context
          [mention_of ''ops'', mention_of ''ghost''] 0)))
     = [(js ''ops'', Error), (js ''ghost'', Finished)]"
proof -
  have "terminal_events
       (snd (fst (handleAgentMentions (scripted example_directory failing_model) example_context
          [mention_of ''ops'', mention_of ''ghost''] 0)))
     = [(js ''ops'', Error), (js ''ghost'', Finished)]"
    by (simp add: run_eval example_eval)
  then show ?thesis
    using handleAgentMentions_sequential [of "[mention_of ''ops'', mention_of ''ghost'']"
        "scripted example_directory failing_model" example_context 0]
    by (simp add: mention_of_def)
qed



theorem mention_rejection_finished_witness:
  "terminal_events
        (snd (fst (handleAgentMentions (scripted example_directory answering_model)
           example_context [mention_of ''ghost'', mention_of ''vault''] 0)))
       = [(js ''ghost'', Finished), (js ''vault'', Finished)]
   \<and> message_text (appended
        (snd (fst (handleAgentMentions (scripted example_directory answering_model)
           example_context [mention_of ''ghost'', mention_of ''vault''] 0))) ! 0)
       = js ''### Response from @ghost'' @ [10, 10] @ js ''No agent named @ghost is available.''
   \<and> message_text (appended
        (snd (fst (handleAgentMentions (scripted example_directory answering_model)
           example_context [mention_of ''ghost'', mention_of ''vault''] 0))) ! 1)
       = js ''### Response from @vault'' @ [10, 10]
           @ js ''You do not have access to @vault. Ask the owner to make it public or share it with you.''"
proof -
  define E where "E = scripted example_directory answering_model"
  define M where "M = [mention_of ''ghost'', mention_of ''vault'']"
  define V where "V = \<lparr>name = js ''Vault'', agentPrompt = None, modelId = None,
                   vectorStoreId = None, isPublic = False, userId = js ''user-2''\<rparr>"
  have g: "fst (getAgentBySlug E (slug (M ! 0)) (try_world E (world_before E example_context M 0 0)))
             = Inr None"
    by (simp add: E_def M_def example_eval)
  have v: "fst (getAgentBySlug E (slug (M ! 1)) (try_world E (world_before E example_context M 1 0)))
             = Inr (Some V)"
    by (simp add: E_def M_def V_def example_eval)
  have priv: "Some V = None \<or> (\<exists>a. Some V = Some a \<and> \<not> isPublic a \<and> userId a \<noteq> ctx_userId example_context)"
    by (simp add: V_def example_eval)
  have len: "length (terminal_events (snd (fst (handleAgentMentions E example_context M 0)))) = 2"
    using handleAgentMentions_sequenced [of M E example_context 0, THEN sequenced_terminal_events]
      length_map [of fst "terminal_events (snd (fst (handleAgentMentions E example_context M 0)))"]
    by (simp add: M_def)
  have two: "xs = [xs ! 0, xs ! 1]" if "length xs = 2" for xs :: "(jsstr \<times> status) list"
    using that by (cases xs; cases "tl xs") auto
  have s: "slug (M ! 0) = js ''ghost''" "slug (M ! 1) = js ''vault''"
    by (simp_all add: mention_of_def M_def)
  define L where "L = snd (fst (handleAgentMentions E example_context M 0))"
  have a0: "terminal_events L ! 0 = (js ''ghost'', Finished)
      \<and> message_text (appended L ! 0)
          = js ''### Response from @ghost'' @ [10, 10] @ js ''No agent named @ghost is available.''"
    using mention_rejection_finished [where i = 0 and found = None, OF _ g]
    unfolding L_def [symmetric] by (simp add: M_def mention_of_def js_def)
  have a1: "terminal_events L ! 1 = (js ''vault'', Finished)
      \<and> message_text (appended L ! 1)
          = js ''### Response from @vault'' @ [10, 10]
           @ js ''You do not have access to @vault. Ask the owner to make it public or share it with you.''"
    using mention_rejection_finished [where i = 1 and found = "Some V", OF _ v priv]
    unfolding L_def [symmetric] by (simp add: M_def mention_of_def js_def)
  have "terminal_events L = [(js ''ghost'', Finished), (js ''vault'', Finished)]"
    using two [OF len] a0 a1 unfolding L_def [symmetric] by simp
  then show ?thesis
    using a0 a1 unfolding L_def E_def M_def by simp
qed

section \<open>Properties of the response heading\<close>

lemma heading_literal:
  "js ''### Response from '' = [35, 35, 35, 32, 82, 101, 115, 112, 111, 110, 115, 101, 32,
     102, 114, 111, 109, 32]"
  by (simp add: js_def)

lemma match_name_group_name:
  assumes "\<not> isLineTerminator c" and "\<forall>x \<in> set r. x \<noteq> 41 \<and> \<not> isLineTerminator x"
  shows "match_name_group (js '' ('' @ (c # r) @ js '')'' @ rest) = Some (c # r)"
proof -
  have "takeWhile (\<lambda>x. x \<noteq> 41 \<and> \<not> isLineTerminator x) (r @ 41 # rest) = r"
    using assms(2) by (simp add: takeWhile_append2)
  then show ?thesis
    using assms(1) by (simp add: match_name_group_def js_def Let_def)
qed

lemma match_name_group_newline: "match_name_group (10 # rest) = None"
  by (simp add: match_name_group_def split: list.splits)

lemma match_heading_built:
  assumes "isAlnum d" and "\<forall>x \<in> set s. isWordHyphen x"
    and "\<not> isWordHyphen (hd (rest @ [0]))"
  shows "match_heading up (js ''### Response from '' @ 64 # (d # s) @ rest) =
           (case match_name_group rest of
              None \<Rightarrow> Some (20 + length s, d # s, None)
            | Some nm \<Rightarrow> Some (23 + length s + length nm, d # s, Some nm))"
proof -
  have "takeWhile isWordHyphen (s @ rest) = s"
  proof (cases rest)
    case Nil
    with assms(2) show ?thesis by simp
  next
    case (Cons x xs)
    with assms(2,3) show ?thesis by (simp add: takeWhile_append2)
  qed
  then show ?thesis
    using assms(1)
    by (simp add: match_heading_def heading_literal matches_ci_def canonicalize_def
          isWhiteSpace_def Let_def js_def split: option.splits)
qed

lemma drop_heading:
  assumes "k = 20 + length s + length mid"
  shows "drop k (js ''### Response from '' @ 64 # (d # s) @ mid @ rest) = rest"
proof -
  define P where "P = js ''### Response from '' @ [64, d]"
  have len: "length P = 20"
    by (simp add: P_def js_def)
  have "drop (length P + length s + length mid) (P @ s @ mid @ rest) = rest"
    by simp
  moreover have "js ''### Response from '' @ 64 # (d # s) @ mid @ rest = P @ s @ mid @ rest"
    by (simp add: P_def)
  ultimately show ?thesis
    by (simp only: assms len)
qed

text \<open>
  The heading the orchestrator builds for a slug of the mention grammar is parsed back to
  that slug, and to the agent name when the name holds no closing parenthesis after its
  first code unit and no line terminator. The body comes back without its leading
  whitespace.
\<close>

lemma heading_round_trip:
  assumes "isAlnum d" and "\<forall>x \<in> set s. isWordHyphen x"
    and "nm = [] \<or> (\<not> isLineTerminator (hd nm)
           \<and> (\<forall>x \<in> set (tl nm). x \<noteq> 41 \<and> \<not> isLineTerminator x))"
  shows "parseAgentResponseText up
           (js ''### Response from ''
              @ (64 # (d # s) @ (if nm \<noteq> [] then js '' ('' @ nm @ js '')'' else []))
              @ [10, 10] @ body)
         = Some \<lparr>parsed_slug = toLowerCase (d # s),
                 parsed_agentName = (if nm = [] then None else Some nm),
                 parsed_body = trimStart body\<rparr>"
proof (cases nm)
  case Nil
  have nw: "\<not> isWordHyphen (hd ((10 # 10 # body) @ [0]))"
    by (simp add: isWordHyphen_def isAlnum_def)
  have "match_heading up (js ''### Response from '' @ 64 # (d # s) @ (10 # 10 # body))
          = Some (20 + length s, d # s, None)"
    unfolding match_heading_built [OF assms(1,2) nw]
    by (simp add: match_name_group_newline)
  moreover have "drop (20 + length s)
      (js ''### Response from '' @ 64 # (d # s) @ (10 # 10 # body)) = 10 # 10 # body"
    using drop_heading [of "20 + length s" s "[]" d "10 # 10 # body"] by simp
  moreover have "trimStart (js ''### Response from '' @ 64 # (d # s) @ (10 # 10 # body))
      = js ''### Response from '' @ 64 # (d # s) @ (10 # 10 # body)"
    by (simp add: trimStart_def heading_literal isWhiteSpace_def)
  ultimately show ?thesis
    using Nil
    by (simp add: parseAgentResponseText_def Let_def)
      (simp add: trimStart_def isWhiteSpace_def)
next
  case (Cons c r)
  define rest where "rest = js '' ('' @ (c # r) @ js '')'' @ (10 # 10 # body)"
  have nw: "\<not> isWordHyphen (hd (rest @ [0]))"
    by (simp add: rest_def js_def isWordHyphen_def isAlnum_def)
  have g: "match_name_group rest = Some (c # r)"
    unfolding rest_def using assms(3) Cons by (intro match_name_group_name) simp_all
  have "match_heading up (js ''### Response from '' @ 64 # (d # s) @ rest)
          = Some (23 + length s + length (c # r), d # s, Some (c # r))"
    unfolding match_heading_built [OF assms(1,2) nw] by (simp add: g)
  moreover have "drop (23 + length s + length (c # r))
      (js ''### Response from '' @ 64 # (d # s) @ rest) = 10 # 10 # body"
  proof -
    have "23 + length s + length (c # r)
            = 20 + length s + length (js '' ('' @ (c # r) @ js '')'')"
      by (simp add: js_def)
    then show ?thesis
      using drop_heading [of "23 + length s + length (c # r)" s
          "js '' ('' @ (c # r) @ js '')''" d "10 # 10 # body"]
      by (simp only: rest_def append_assoc)
  qed
  moreover have "trimStart (js ''### Response from '' @ 64 # (d # s) @ rest)
      = js ''### Response from '' @ 64 # (d # s) @ rest"
    by (simp add: trimStart_def heading_literal isWhiteSpace_def)
  moreover have "js ''### Response from ''
              @ (64 # (d # s) @ (if nm \<noteq> [] then js '' ('' @ nm @ js '')'' else []))
              @ [10, 10] @ body
      = js ''### Response from '' @ 64 # (d # s) @ rest"
    using Cons by (simp add: rest_def)
  ultimately show ?thesis
    using Cons
    by (simp add: parseAgentResponseText_def Let_def)
      (simp add: trimStart_def isWhiteSpace_def)
qed

text \<open>
  C5: the round trip of the heading, evaluated for the public agent named
  \<^verbatim>\<open>Sales (EU)\<close>. The orchestrator reports the agent name \<^verbatim>\<open>Sales (EU)\<close> and builds the
  text \<^verbatim>\<open>### Response from @sales (Sales (EU))\<close>, a blank line and the body;
  \<^verbatim>\<open>parseAgentResponseText\<close> returns the agent name \<^verbatim>\<open>Sales (EU\<close> for that text, because
  the lazy group of the heading pattern ends at the first closing parenthesis.
\<close>

theorem heading_round_trip_loses_parenthesised_name:
  "try_agentName (scripted example_directory answering_model) example_context
       (mention_of ''sales'') 0
     = Some (js ''Sales (EU)'')
   \<and> message_text (fst (fst (mention_iteration (scripted example_directory answering_model)
        example_context (mention_of ''sales'') 0)))
     = js ''### Response from @sales (Sales (EU))'' @ [10, 10] @ js ''Done.''
   \<and> map_option parsed_agentName
        (parseAgentResponseText toUppercase
           (message_text (fst (fst (mention_iteration
              (scripted example_directory answering_model) example_context
              (mention_of ''sales'') 0)))))
     = Some (Some (js ''Sales (EU''))"
proof -
  have n: "try_agentName (scripted example_directory answering_model) example_context
       (mention_of ''sales'') 0
     = Some (js ''Sales (EU)'')"
    by (simp add: try_agentName_def try_mention_def agent_run_def Let_def ex_try_world
        example_eval trim_def trimStart_def trimEnd_def truthy_def split: prod.splits)
  have t: "message_text (fst (fst (mention_iteration (scripted example_directory answering_model)
        example_context (mention_of ''sales'') 0)))
     = js ''### Response from @sales (Sales (EU))'' @ [10, 10] @ js ''Done.''"
    by (simp add: message_text_def run_eval example_eval isWhiteSpace_def)
  have p: "map_option parsed_agentName
        (parseAgentResponseText toUppercase (js ''### Response from @sales (Sales (EU))'' @ [10, 10] @ js ''Done.''))
     = Some (Some (js ''Sales (EU''))"
    by (simp add: parseAgentResponseText_def match_heading_def match_name_group_def
          matches_ci_def canonicalize_def isLineTerminator_def isAlnum_def isWordHyphen_def
          js_def Let_def trimStart_def isWhiteSpace_def)
  show ?thesis
    using n t p by simp
qed

section \<open>Properties of the tool selection\<close>

lemma tool_names:
  "map fst (tools (createToolRegistry u v ns t)) =
     map js [''requestSuggestions'', ''searchTranscriptsByKeyword'', ''searchTranscriptsByUser'',
             ''listAccessibleSlackChannels'', ''fetchSlackChannelHistory'',
             ''getSlackThreadReplies'', ''getBulkSlackHistory'', ''listGoogleCalendarEvents'',
             ''listGmailMessages'', ''getGmailMessageDetails'']
       @ (if ns = js ''openai'' \<and> truthy v then [js ''file_search''] else [])
       @ [js ''get_file_contents'']
       @ (if t then [js ''getTranscriptDetails''] else [])"
  by (simp add: createToolRegistry_def Let_def)

lemma pinned_names:
  "nonConfigurableToolIds (createToolRegistry u v ns t) =
     (if truthy v
      then (if ns = js ''openai'' then {js ''get_file_contents'', js ''file_search''}
            else {js ''get_file_contents''})
      else {})"
  by (simp add: createToolRegistry_def Let_def)

lemma fileSearchRegistered_eq:
  "fileSearchRegistered (createToolRegistry u v ns t) \<longleftrightarrow> ns = js ''openai'' \<and> truthy v"
  by (simp add: createToolRegistry_def Let_def)

lemma pinned_available:
  "nonConfigurableToolIds (createToolRegistry u v ns t)
     \<subseteq> set (map fst (tools (createToolRegistry u v ns t)))"
  unfolding tool_names pinned_names by auto

lemma activeToolsForRun_set:
  "set (activeToolsForRun reg requested) =
     {x \<in> set (map fst (tools reg)).
        x \<in> (case requested of Some r \<Rightarrow> set r | None \<Rightarrow> set (map fst (tools reg)))
        \<or> x \<in> nonConfigurableToolIds reg}"
  by (auto simp: activeToolsForRun_def Let_def split: option.splits)

lemma activeToolsForAgent_pinned:
  "nonConfigurableToolIds reg \<subseteq> set (map fst (tools reg)) \<Longrightarrow>
     nonConfigurableToolIds reg \<subseteq> set (activeToolsForAgent reg requested)"
  by (auto simp: activeToolsForAgent_def Let_def)

lemma activeToolsForRun_pinned:
  "nonConfigurableToolIds reg \<subseteq> set (map fst (tools reg)) \<Longrightarrow>
     nonConfigurableToolIds reg \<subseteq> set (activeToolsForRun reg requested)"
  by (auto simp: activeToolsForRun_set)

lemma agent_run_request:
  assumes "agent_run env ctx s p a w = ((outcome, log), w')"
    and "CallGenerateText r \<in> set log"
  shows "g_tools r =
           tools (createToolRegistry (ctx_userId ctx)
             (if truthy (vectorStoreId a) \<and> userId a = ctx_userId ctx then vectorStoreId a else None)
             (takeWhile (\<lambda>c. c \<noteq> 47) (resolveProviderModelId env (g_model r)))
             (\<not> ctx_isMemberRole ctx))
         \<and> g_activeTools r =
             activeToolsForAgent (createToolRegistry (ctx_userId ctx)
               (if truthy (vectorStoreId a) \<and> userId a = ctx_userId ctx then vectorStoreId a else None)
               (takeWhile (\<lambda>c. c \<noteq> 47) (resolveProviderModelId env (g_model r)))
               (\<not> ctx_isMemberRole ctx))
               (ctx_requestedActiveTools ctx)"
  using assms
  by (auto simp: agent_run_def Let_def split: prod.splits sum.splits option.splits if_splits)

lemma stream_requests_append:
  "stream_requests (xs @ ys) = stream_requests xs @ stream_requests ys"
  by (induction xs) (auto split: effect.splits)

lemma file_listings_append:
  "file_listings (xs @ ys) = file_listings xs @ file_listings ys"
  by (induction xs) (auto split: effect.splits)

lemma generate_requests_mem:
  "r \<in> set (generate_requests log) \<longleftrightarrow> CallGenerateText r \<in> set log"
  by (induction log) (auto split: effect.splits)

lemma stream_requests_mem:
  "r \<in> set (stream_requests log) \<longleftrightarrow> CallStreamText r \<in> set log"
  by (induction log) (auto split: effect.splits)

lemma sequenced_no_stream:
  "sequenced pending running log \<Longrightarrow> stream_requests log = []"
proof (induction log arbitrary: pending running)
  case Nil
  then show ?case by simp
next
  case (Cons e log)
  then show ?case
    by (cases e) (auto split: option.splits list.splits)
qed

lemma execute_request:
  assumes "r \<in> set (stream_requests (snd (fst (execute env t w))))"
  shows "st_tools r =
           tools (createToolRegistry (t_databaseUserId t) (t_resolvedVectorStoreId t)
                    (t_providerNamespace t) (ss_role (t_session t) \<noteq> js ''member''))
         \<and> st_activeTools r =
             activeToolsForRun
               (createToolRegistry (t_databaseUserId t) (t_resolvedVectorStoreId t)
                  (t_providerNamespace t) (ss_role (t_session t) \<noteq> js ''member''))
               (pb_activeTools (t_body t))"
proof -
  define ctx where "ctx =
    \<lparr>ctx_chatId = pb_id (t_body t), ctx_userId = t_databaseUserId t,
     ctx_defaultModelId = t_selectedChatModelId t, ctx_userMessage = t_userInput t,
     ctx_requestHints = t_requestHints t,
     ctx_isMemberRole = (ss_role (t_session t) = js ''member''),
     ctx_requestedActiveTools = pb_activeTools (t_body t),
     ctx_reasoningEffort = pb_reasoningEffort (t_body t)\<rparr>"
  have none: "stream_requests (snd (fst (handleAgentMentions (core env) ctx (t_mentions t) w))) = []"
    using handleAgentMentions_sequenced by (rule sequenced_no_stream)
  obtain res hlog w1 where
    h: "handleAgentMentions (core env) ctx (t_mentions t) w = ((res, hlog), w1)"
    by (metis prod.exhaust)
  have hn: "stream_requests hlog = []"
    using none h by simp
  show ?thesis
    using assms h hn
    by (auto simp: execute_def Let_def ctx_def [symmetric] stream_requests_append
          split: prod.splits sum.splits if_splits)
qed

lemma tool_name_set:
  "fst ` set (tools (createToolRegistry u v ns tr))
     = set (map fst (tools (createToolRegistry u v ns tr)))"
  by simp

lemma pinned_when_store:
  "truthy v \<Longrightarrow>
     js ''get_file_contents'' \<in> nonConfigurableToolIds (createToolRegistry u v ns tr)
     \<and> (js ''file_search'' \<in> fst ` set (tools (createToolRegistry u v ns tr)) \<longrightarrow>
          js ''file_search'' \<in> nonConfigurableToolIds (createToolRegistry u v ns tr))"
  unfolding tool_name_set tool_names pinned_names
  by (cases "ns = js ''openai''") (simp_all add: js_def)

text \<open>
  C8: for every allow-list the active tools of a run contain every pinned tool of the
  registry, in the primary turn (\<^verbatim>\<open>activeToolsForRun\<close>) and in a mention run
  (\<^verbatim>\<open>activeToolsForAgent\<close>). With a knowledge-store id present \<^verbatim>\<open>get_file_contents\<close> is
  pinned, and \<^verbatim>\<open>file_search\<close> is pinned when it is registered. So the request of the primary
  run, and the request of a mention run for an agent whose store the run uses, have
  \<^verbatim>\<open>get_file_contents\<close> among the active tools, and \<^verbatim>\<open>file_search\<close> whenever it is among
  the tools.
\<close>

theorem pinned_tools_stay_active:
  "nonConfigurableToolIds (createToolRegistry u v ns tr)
     \<subseteq> set (activeToolsForRun (createToolRegistry u v ns tr) requested)
   \<and> nonConfigurableToolIds (createToolRegistry u v ns tr)
       \<subseteq> set (activeToolsForAgent (createToolRegistry u v ns tr) requested)
   \<and> (truthy v \<longrightarrow>
        js ''get_file_contents'' \<in> nonConfigurableToolIds (createToolRegistry u v ns tr)
        \<and> (fileSearchRegistered (createToolRegistry u v ns tr) \<longrightarrow>
             js ''file_search'' \<in> nonConfigurableToolIds (createToolRegistry u v ns tr)))
   \<and> (truthy (t_resolvedVectorStoreId t) \<longrightarrow>
        (\<forall>r \<in> set (stream_requests (snd (fst (execute penv t w)))).
           js ''get_file_contents'' \<in> set (st_activeTools r)
           \<and> (js ''file_search'' \<in> fst ` set (st_tools r) \<longrightarrow>
                js ''file_search'' \<in> set (st_activeTools r))))
   \<and> (truthy (vectorStoreId a) \<and> userId a = ctx_userId ctx \<longrightarrow>
        (\<forall>r \<in> set (generate_requests (snd (fst (agent_run env ctx s p a w')))).
           js ''get_file_contents'' \<in> set (g_activeTools r)
           \<and> (js ''file_search'' \<in> fst ` set (g_tools r) \<longrightarrow>
                js ''file_search'' \<in> set (g_activeTools r))))"
proof -
  have reg: "nonConfigurableToolIds (createToolRegistry u v ns tr)
      \<subseteq> set (activeToolsForRun (createToolRegistry u v ns tr) requested)
    \<and> nonConfigurableToolIds (createToolRegistry u v ns tr)
      \<subseteq> set (activeToolsForAgent (createToolRegistry u v ns tr) requested)"
    for u v ns tr requested
    using pinned_available [of u v ns tr]
    by (simp add: activeToolsForRun_pinned activeToolsForAgent_pinned)
  have pin: "js ''get_file_contents'' \<in> nonConfigurableToolIds (createToolRegistry u v ns tr)
      \<and> (js ''file_search'' \<in> fst ` set (tools (createToolRegistry u v ns tr)) \<longrightarrow>
           js ''file_search'' \<in> nonConfigurableToolIds (createToolRegistry u v ns tr))"
    if "truthy v" for u v ns tr
    using that by (rule pinned_when_store)
  have fs: "fileSearchRegistered (createToolRegistry u v ns tr) \<longrightarrow>
      js ''file_search'' \<in> nonConfigurableToolIds (createToolRegistry u v ns tr)"
    by (simp add: fileSearchRegistered_eq pinned_names)
  have primary: "js ''get_file_contents'' \<in> set (st_activeTools r)
      \<and> (js ''file_search'' \<in> fst ` set (st_tools r) \<longrightarrow> js ''file_search'' \<in> set (st_activeTools r))"
    if "truthy (t_resolvedVectorStoreId t)"
      and "r \<in> set (stream_requests (snd (fst (execute penv t w))))" for r
  proof -
    define reg' where "reg' = createToolRegistry (t_databaseUserId t) (t_resolvedVectorStoreId t)
      (t_providerNamespace t) (ss_role (t_session t) \<noteq> js ''member'')"
    have eq: "st_tools r = tools reg'"
      "st_activeTools r = activeToolsForRun reg' (pb_activeTools (t_body t))"
      using execute_request [OF that(2)] by (simp_all add: reg'_def)
    have sub: "nonConfigurableToolIds reg' \<subseteq> set (st_activeTools r)"
      unfolding eq reg'_def using reg by blast
    show ?thesis
      using pin [OF that(1), of "t_databaseUserId t" "t_providerNamespace t"
          "ss_role (t_session t) \<noteq> js ''member''"] sub
      unfolding eq(1) reg'_def by blast
  qed
  have agent: "js ''get_file_contents'' \<in> set (g_activeTools r)
      \<and> (js ''file_search'' \<in> fst ` set (g_tools r) \<longrightarrow> js ''file_search'' \<in> set (g_activeTools r))"
    if st: "truthy (vectorStoreId a)" and own: "userId a = ctx_userId ctx"
      and r: "r \<in> set (generate_requests (snd (fst (agent_run env ctx s p a w'))))" for r
  proof -
    obtain outcome log w2 where ar: "agent_run env ctx s p a w' = ((outcome, log), w2)"
      by (metis prod.exhaust)
    have "CallGenerateText r \<in> set log"
      using r ar by (simp add: generate_requests_mem)
    note rq = agent_run_request [OF ar this]
    define reg' where "reg' = createToolRegistry (ctx_userId ctx) (vectorStoreId a)
      (takeWhile (\<lambda>c. c \<noteq> 47) (resolveProviderModelId env (g_model r)))
      (\<not> ctx_isMemberRole ctx)"
    have eq: "g_tools r = tools reg'"
      "g_activeTools r = activeToolsForAgent reg' (ctx_requestedActiveTools ctx)"
      using rq st own by (simp_all add: reg'_def)
    have sub: "nonConfigurableToolIds reg' \<subseteq> set (g_activeTools r)"
      unfolding eq reg'_def using reg by blast
    show ?thesis
      using pin [OF st, of "ctx_userId ctx"
          "takeWhile (\<lambda>c. c \<noteq> 47) (resolveProviderModelId env (g_model r))"
          "\<not> ctx_isMemberRole ctx"] sub
      unfolding eq(1) reg'_def by blast
  qed
  show ?thesis
    using reg pin fs primary agent by blast
qed

lemma agent_run_non_owner:
  assumes "userId a \<noteq> ctx_userId ctx"
  shows "\<exists>r. snd (fst (agent_run env ctx s p a w)) = [CallGenerateText r]
           \<and> g_system r =
               systemPrompt env (g_model r) (ctx_requestHints ctx)
                 (Some \<lparr>ac_agentPrompt = (case agentPrompt a of None \<Rightarrow> [] | Some q \<Rightarrow> q),
                        ac_agentName = name a, ac_knowledgeFiles = []\<rparr>)
           \<and> g_tools r =
               tools (createToolRegistry (ctx_userId ctx) None
                 (takeWhile (\<lambda>c. c \<noteq> 47) (resolveProviderModelId env (g_model r)))
                 (\<not> ctx_isMemberRole ctx))
           \<and> g_activeTools r =
               activeToolsForAgent (createToolRegistry (ctx_userId ctx) None
                 (takeWhile (\<lambda>c. c \<noteq> 47) (resolveProviderModelId env (g_model r)))
                 (\<not> ctx_isMemberRole ctx)) (ctx_requestedActiveTools ctx)"
  using assms
  by (auto simp: agent_run_def Let_def split: prod.splits sum.splits)

lemma registry_without_store:
  "nonConfigurableToolIds (createToolRegistry u None ns tr) = {}"
  "\<not> fileSearchRegistered (createToolRegistry u None ns tr)"
  "js ''file_search'' \<notin> fst ` set (tools (createToolRegistry u None ns tr))"
  "map_of (tools (createToolRegistry u None ns tr)) (js ''get_file_contents'')
     = Some (GetFileContents u [])"
  by (simp_all add: createToolRegistry_def Let_def truthy_def js_def)

text \<open>
  C9: a mention run for a public agent of another user does not use the agent's knowledge
  store, whatever the record holds. It asks for no listing of knowledge files, the system
  prompt is built with an empty list of knowledge files, \<^verbatim>\<open>file_search\<close> is not among the
  tools of the model call, \<^verbatim>\<open>get_file_contents\<close> is bound to the empty store id, and no tool
  is pinned.
\<close>

theorem non_owner_run_without_knowledge_store:
  assumes "getAgentBySlug env s w = (Inr (Some a), w1)"
    and "isPublic a"
    and "userId a \<noteq> ctx_userId ctx"
  shows "file_listings (snd (snd (snd (fst (try_mention env ctx s p w))))) = []
         \<and> length (generate_requests (snd (snd (snd (fst (try_mention env ctx s p w)))))) = 1
         \<and> (\<forall>r \<in> set (generate_requests (snd (snd (snd (fst (try_mention env ctx s p w)))))).
              g_system r =
                systemPrompt env (g_model r) (ctx_requestHints ctx)
                  (Some \<lparr>ac_agentPrompt = (case agentPrompt a of None \<Rightarrow> [] | Some q \<Rightarrow> q),
                         ac_agentName = name a, ac_knowledgeFiles = []\<rparr>)
              \<and> js ''file_search'' \<notin> fst ` set (g_tools r)
              \<and> map_of (g_tools r) (js ''get_file_contents'')
                  = Some (GetFileContents (ctx_userId ctx) [])
              \<and> g_activeTools r =
                  activeToolsForAgent
                    \<lparr>tools = g_tools r, nonConfigurableToolIds = {},
                     fileSearchRegistered = False\<rparr>
                    (ctx_requestedActiveTools ctx))"
proof -
  obtain r where r: "snd (fst (agent_run env ctx s p a w1)) = [CallGenerateText r]"
    and sys: "g_system r =
               systemPrompt env (g_model r) (ctx_requestHints ctx)
                 (Some \<lparr>ac_agentPrompt = (case agentPrompt a of None \<Rightarrow> [] | Some q \<Rightarrow> q),
                        ac_agentName = name a, ac_knowledgeFiles = []\<rparr>)"
    and tl: "g_tools r =
               tools (createToolRegistry (ctx_userId ctx) None
                 (takeWhile (\<lambda>c. c \<noteq> 47) (resolveProviderModelId env (g_model r)))
                 (\<not> ctx_isMemberRole ctx))"
    and act: "g_activeTools r =
               activeToolsForAgent (createToolRegistry (ctx_userId ctx) None
                 (takeWhile (\<lambda>c. c \<noteq> 47) (resolveProviderModelId env (g_model r)))
                 (\<not> ctx_isMemberRole ctx)) (ctx_requestedActiveTools ctx)"
    using agent_run_non_owner [OF assms(3), of env s p w1] by blast
  define reg where "reg = createToolRegistry (ctx_userId ctx) None
                 (takeWhile (\<lambda>c. c \<noteq> 47) (resolveProviderModelId env (g_model r)))
                 (\<not> ctx_isMemberRole ctx)"
  have log: "snd (snd (snd (fst (try_mention env ctx s p w))))
               = [CallGetAgentBySlug s, CallGenerateText r]"
    using assms(1,2) r by (auto simp: try_mention_def split: prod.splits)
  have regeq: "reg = \<lparr>tools = g_tools r, nonConfigurableToolIds = {}, fileSearchRegistered = False\<rparr>"
    using registry_without_store(1,2) [of "ctx_userId ctx"
        "takeWhile (\<lambda>c. c \<noteq> 47) (resolveProviderModelId env (g_model r))"
        "\<not> ctx_isMemberRole ctx"]
    by (simp add: tl reg_def [symmetric])
  have "js ''file_search'' \<notin> fst ` set (g_tools r)"
    and "map_of (g_tools r) (js ''get_file_contents'') = Some (GetFileContents (ctx_userId ctx) [])"
    unfolding tl by (rule registry_without_store)+
  then show ?thesis
    using sys act regeq by (simp add: log reg_def [symmetric])
qed

text \<open>
  C10: a mention run never has zero active tools. When the allow-list is absent or empty,
  or when no available tool is named by it or pinned, every available tool is active.
\<close>

theorem agent_run_never_without_tools:
  "activeToolsForAgent (createToolRegistry u v ns tr) requested \<noteq> []
   \<and> (requested = None \<or> requested = Some []
        \<or> (\<forall>x \<in> set (map fst (tools (createToolRegistry u v ns tr))).
              x \<notin> set (the requested)
              \<and> x \<notin> nonConfigurableToolIds (createToolRegistry u v ns tr))
      \<longrightarrow> activeToolsForAgent (createToolRegistry u v ns tr) requested
            = map fst (tools (createToolRegistry u v ns tr)))
   \<and> (\<forall>r \<in> set (generate_requests (snd (fst (agent_run env ctx s p a w)))).
        g_activeTools r \<noteq> [])"
proof -
  have avail: "map fst (tools (createToolRegistry u v ns tr)) \<noteq> []" for u v ns tr
    by (simp add: tool_names)
  have nonempty: "activeToolsForAgent (createToolRegistry u v ns tr) requested \<noteq> []"
    for u v ns tr requested
    using avail [of u v ns tr] by (simp add: activeToolsForAgent_def Let_def)
  have all: "activeToolsForAgent reg requested = map fst (tools reg)"
    if "requested = None \<or> requested = Some []
        \<or> (\<forall>x \<in> set (map fst (tools reg)).
              x \<notin> set (the requested) \<and> x \<notin> nonConfigurableToolIds reg)" for reg
    using that
    by (cases requested)
      (auto simp: activeToolsForAgent_def Let_def filter_id_conv filter_empty_conv)
  have run: "g_activeTools r \<noteq> []"
    if "r \<in> set (generate_requests (snd (fst (agent_run env ctx s p a w))))" for r
  proof -
    obtain outcome log w2 where ar: "agent_run env ctx s p a w = ((outcome, log), w2)"
      by (metis prod.exhaust)
    have "CallGenerateText r \<in> set log"
      using that ar by (simp add: generate_requests_mem)
    from agent_run_request [OF ar this] show ?thesis
      using nonempty by simp
  qed
  show ?thesis
    using nonempty all [of "createToolRegistry u v ns tr"] run by blast
qed

theorem pinned_tools_stay_active_witness:
  "truthy (Some (js ''vs_9''))
   \<and> js ''get_file_contents'' \<notin> set [js ''listGmailMessages'']
   \<and> js ''file_search'' \<notin> set [js ''listGmailMessages'']
   \<and> {js ''get_file_contents'', js ''file_search''}
       \<subseteq> set (activeToolsForRun
             (createToolRegistry (js ''user-1'') (Some (js ''vs_9'')) (js ''openai'') False)
             (Some [js ''listGmailMessages'']))
   \<and> {js ''get_file_contents'', js ''file_search''}
       \<subseteq> set (activeToolsForAgent
             (createToolRegistry (js ''user-1'') (Some (js ''vs_9'')) (js ''openai'') False)
             (Some [js ''listGmailMessages'']))
   \<and> truthy (t_resolvedVectorStoreId example_turn)
   \<and> map st_activeTools (stream_requests (snd (fst (execute
         (scripted_post example_directory answering_model None) example_turn 0))))
       = [[js ''listGmailMessages'', js ''file_search'', js ''get_file_contents'']]
   \<and> truthy (vectorStoreId example_owned_agent)
   \<and> userId example_owned_agent = ctx_userId example_context
   \<and> map g_activeTools (generate_requests (snd (fst (agent_run
         (scripted example_directory answering_model)
         (example_context\<lparr>ctx_requestedActiveTools := Some [js ''listGmailMessages'']\<rparr>)
         (js ''notes'') [] example_owned_agent 0))))
       = [[js ''listGmailMessages'', js ''file_search'', js ''get_file_contents'']]"
proof -
  have p: "nonConfigurableToolIds
        (createToolRegistry (js ''user-1'') (Some (js ''vs_9'')) (js ''openai'') False)
      = {js ''get_file_contents'', js ''file_search''}"
    by (simp add: pinned_names truthy_def js_def)
  have x: "map st_activeTools (stream_requests (snd (fst (execute
         (scripted_post example_directory answering_model None) example_turn 0))))
       = [[js ''listGmailMessages'', js ''file_search'', js ''get_file_contents'']]"
    by (simp add: execute_def example_turn_def scripted_post_def Let_def truthy_def
          activeToolsForRun_def createToolRegistry_def js_def)
  have a: "map g_activeTools (generate_requests (snd (fst (agent_run
         (scripted example_directory answering_model)
         (example_context\<lparr>ctx_requestedActiveTools := Some [js ''listGmailMessages'']\<rparr>)
         (js ''notes'') [] example_owned_agent 0))))
       = [[js ''listGmailMessages'', js ''file_search'', js ''get_file_contents'']]"
    by (simp add: agent_run_def example_owned_agent_def example_eval Let_def truthy_def
          activeToolsForAgent_def createToolRegistry_def)
  have h: "truthy (Some (js ''vs_9''))" "truthy (t_resolvedVectorStoreId example_turn)"
    "truthy (vectorStoreId example_owned_agent)"
    "userId example_owned_agent = ctx_userId example_context"
    by (simp_all add: truthy_def js_def example_turn_def example_owned_agent_def
          example_context_def)
  have n: "js ''get_file_contents'' \<notin> set [js ''listGmailMessages'']"
    "js ''file_search'' \<notin> set [js ''listGmailMessages'']"
    by (simp_all add: js_def)
  note T = pinned_tools_stay_active [where u = "js ''user-1''" and v = "Some (js ''vs_9'')"
      and ns = "js ''openai''" and tr = False and requested = "Some [js ''listGmailMessages'']"
      and t = example_turn and penv = "scripted_post example_directory answering_model None"
      and w = 0 and a = example_owned_agent
      and ctx = "example_context\<lparr>ctx_requestedActiveTools := Some [js ''listGmailMessages'']\<rparr>"
      and env = "scripted example_directory answering_model" and s = "js ''notes''"
      and p = "[]" and w' = 0]
  have c: "{js ''get_file_contents'', js ''file_search''}
       \<subseteq> set (activeToolsForRun
             (createToolRegistry (js ''user-1'') (Some (js ''vs_9'')) (js ''openai'') False)
             (Some [js ''listGmailMessages'']))
   \<and> {js ''get_file_contents'', js ''file_search''}
       \<subseteq> set (activeToolsForAgent
             (createToolRegistry (js ''user-1'') (Some (js ''vs_9'')) (js ''openai'') False)
             (Some [js ''listGmailMessages'']))"
    using T unfolding p by blast
  show ?thesis
    using c x a h n by blast
qed

theorem non_owner_run_without_knowledge_store_witness:
  "getAgentBySlug (scripted example_directory answering_model) (js ''ops'') 0
     = (Inr (Some \<lparr>name = js ''Ops Bot'', agentPrompt = None, modelId = None,
                   vectorStoreId = Some (js ''vs_1''), isPublic = True,
                   userId = js ''user-2''\<rparr>), 0)
   \<and> js ''user-2'' \<noteq> ctx_userId example_context
   \<and> file_listings (snd (snd (snd (fst (try_mention
         (scripted example_directory answering_model) example_context (js ''ops'') [] 0)))))
       = []
   \<and> length (generate_requests (snd (snd (snd (fst (try_mention
         (scripted example_directory answering_model) example_context (js ''ops'') [] 0))))))
       = 1"
proof -
  define A where "A = \<lparr>name = js ''Ops Bot'', agentPrompt = None, modelId = None,
                   vectorStoreId = Some (js ''vs_1''), isPublic = True,
                   userId = js ''user-2''\<rparr>"
  have g: "getAgentBySlug (scripted example_directory answering_model) (js ''ops'') 0
     = (Inr (Some A), 0)"
    by (simp add: A_def example_eval)
  have pub: "isPublic A" and other: "userId A \<noteq> ctx_userId example_context"
    by (simp_all add: A_def example_eval)
  show ?thesis
    using non_owner_run_without_knowledge_store [OF g pub other, of "[]"] g other
    by (simp add: A_def)
qed

theorem agent_run_never_without_tools_witness:
  "set (map fst (tools (createToolRegistry (js ''user-1'') None (js ''openai'') False)))
     \<inter> (set [js ''no_such_tool'']
          \<union> nonConfigurableToolIds (createToolRegistry (js ''user-1'') None (js ''openai'') False))
     = {}
   \<and> activeToolsForAgent (createToolRegistry (js ''user-1'') None (js ''openai'') False)
        (Some [js ''no_such_tool''])
       = map fst (tools (createToolRegistry (js ''user-1'') None (js ''openai'') False))
   \<and> length (activeToolsForAgent (createToolRegistry (js ''user-1'') None (js ''openai'') False)
        (Some [js ''no_such_tool''])) = 11
   \<and> map (\<lambda>r. length (g_activeTools r)) (generate_requests (snd (fst (agent_run
         (scripted example_directory answering_model)
         (example_context\<lparr>ctx_requestedActiveTools := Some [js ''no_such_tool'']\<rparr>)
         (js ''notes'') [] (example_owned_agent\<lparr>vectorStoreId := None\<rparr>) 0))))
       = [11]"
proof -
  have h: "\<forall>x \<in> set (map fst (tools (createToolRegistry (js ''user-1'') None (js ''openai'') False))).
      x \<notin> set (the (Some [js ''no_such_tool'']))
      \<and> x \<notin> nonConfigurableToolIds (createToolRegistry (js ''user-1'') None (js ''openai'') False)"
    unfolding tool_names pinned_names by (simp add: truthy_def js_def)
  have l: "length (map fst (tools (createToolRegistry (js ''user-1'') None (js ''openai'') False)))
      = 11"
    unfolding tool_names by (simp add: truthy_def)
  have a: "map (\<lambda>r. length (g_activeTools r)) (generate_requests (snd (fst (agent_run
         (scripted example_directory answering_model)
         (example_context\<lparr>ctx_requestedActiveTools := Some [js ''no_such_tool'']\<rparr>)
         (js ''notes'') [] (example_owned_agent\<lparr>vectorStoreId := None\<rparr>) 0))))
       = [11]"
    by (simp add: agent_run_def example_owned_agent_def example_eval Let_def truthy_def
          activeToolsForAgent_def createToolRegistry_def)
  note T = agent_run_never_without_tools [where u = "js ''user-1''" and v = None
      and ns = "js ''openai''" and tr = False and requested = "Some [js ''no_such_tool'']"
      and env = "scripted example_directory answering_model"
      and ctx = "example_context\<lparr>ctx_requestedActiveTools := Some [js ''no_such_tool'']\<rparr>"
      and s = "js ''notes''" and p = "[]"
      and a = "example_owned_agent\<lparr>vectorStoreId := None\<rparr>" and w = 0]
  have c: "activeToolsForAgent (createToolRegistry (js ''user-1'') None (js ''openai'') False)
        (Some [js ''no_such_tool''])
       = map fst (tools (createToolRegistry (js ''user-1'') None (js ''openai'') False))"
    using T h by blast
  have "length (activeToolsForAgent (createToolRegistry (js ''user-1'') None (js ''openai'') False)
        (Some [js ''no_such_tool''])) = 11"
    unfolding c by (rule l)
  moreover have "set (map fst (tools (createToolRegistry (js ''user-1'') None (js ''openai'') False)))
     \<inter> (set [js ''no_such_tool'']
          \<union> nonConfigurableToolIds (createToolRegistry (js ''user-1'') None (js ''openai'') False))
     = {}"
    using h by auto
  ultimately show ?thesis
    using c a by blast
qed

section \<open>Properties of the request handler\<close>
















end
